theory Spec2Isabelle
  imports Main "HOL-Library.Word"
begin

section \<open>Python values used by \<open>aitextgen/TokenDataset.py\<close>\<close>

text \<open>
  A Python \<open>str\<close> holding text is a sequence of Unicode code points, so text is a list
  of naturals: \<open>str.splitlines\<close> and \<open>str.isspace\<close> look at code points beyond one byte.
  File paths and messages are ordinary strings. Python integers are unbounded: \<open>int\<close>.
  A file holds bytes.
\<close>

type_synonym pystr = "nat list"
type_synonym byte = "8 word"

datatype error =
    AssertionError string
  | TypeError
  | ValueError
  | AttributeError
  | FileNotFoundError
  | UnicodeDecodeError
  | IndexError
  | OverflowError
  | TensorOverflow
  | UnpackError
  | CsvError

type_synonym 'a result = "error + 'a"

subsection \<open>Truthiness\<close>

text \<open>
  \<open>any([texts, file_path])\<close> tests the truth value of its elements: \<open>None\<close>, the empty
  list and the empty string are false.
\<close>

fun truthy :: "'a list option \<Rightarrow> bool" where
  "truthy None = False"
| "truthy (Some xs) = (xs \<noteq> [])"

subsection \<open>\<open>range\<close> and slices\<close>

text \<open>
  \<open>range(start, stop, step)\<close> for a non-zero step; \<open>range\<close> raises \<open>ValueError\<close> on a zero
  step, which the caller checks.
\<close>

function py_range :: "int \<Rightarrow> int \<Rightarrow> int \<Rightarrow> int list" where
  "py_range i stop step =
     (if 0 < step then (if i < stop then i # py_range (i + step) stop step else [])
      else if step < 0 then (if stop < i then i # py_range (i + step) stop step else [])
      else [])"
  by pat_completeness auto
termination
  by (relation "measure (\<lambda>(i, stop, step). nat (if 0 < step then stop - i else i - stop))") auto

declare py_range.simps [simp del]

text \<open>\<open>xs[i:j]\<close>: a negative bound counts from the end, and both bounds are clamped.\<close>

definition slice_bound :: "nat \<Rightarrow> int \<Rightarrow> nat" where
  "slice_bound n k = (if k < 0 then nat (max 0 (k + int n)) else min (nat k) n)"

definition py_slice :: "'a list \<Rightarrow> int \<Rightarrow> int \<Rightarrow> 'a list" where
  "py_slice xs i j =
     (let a = slice_bound (length xs) i; b = slice_bound (length xs) j
      in take (b - a) (drop a xs))"

text \<open>\<open>xs[i]\<close>: a negative index counts from the end; out of range raises \<open>IndexError\<close>.\<close>

definition py_index :: "'a list \<Rightarrow> int \<Rightarrow> 'a result" where
  "py_index xs i =
     (let n = int (length xs); j = (if i < 0 then i + n else i)
      in if 0 \<le> j \<and> j < n then Inr (xs ! nat j) else Inl IndexError)"

subsection \<open>Text: line boundaries and whitespace\<close>

text \<open>
  \<open>str.splitlines\<close> breaks a string at every line boundary: LF, CR, CR LF, VT, FF, FS,
  GS, RS, NEL (U+0085), LS (U+2028) and PS (U+2029). The boundary is not part of the
  line, and a string that ends with a boundary has no empty last line.
\<close>

definition is_linebreak :: "nat \<Rightarrow> bool" where
  "is_linebreak c \<longleftrightarrow>
     c = 0x0A \<or> c = 0x0B \<or> c = 0x0C \<or> c = 0x0D \<or> c = 0x1C \<or> c = 0x1D \<or> c = 0x1E \<or>
     c = 0x85 \<or> c = 0x2028 \<or> c = 0x2029"

fun splitlines_from :: "pystr \<Rightarrow> pystr \<Rightarrow> pystr list" where
  "splitlines_from cur [] = (if cur = [] then [] else [cur])"
| "splitlines_from cur (c # cs) =
     (if c = 0x0D then
        (case cs of
           [] \<Rightarrow> [cur]
         | d # ds \<Rightarrow> if d = 0x0A then cur # splitlines_from [] ds
                     else cur # splitlines_from [] (d # ds))
      else if is_linebreak c then cur # splitlines_from [] cs
      else splitlines_from (cur @ [c]) cs)"

definition splitlines :: "pystr \<Rightarrow> pystr list" where
  "splitlines s = splitlines_from [] s"

text \<open>
  \<open>str.isspace\<close>: true when the string is not empty and every character is whitespace
  (bidirectional class WS, B or S, or category Zs).
\<close>

definition is_whitespace :: "nat \<Rightarrow> bool" where
  "is_whitespace c \<longleftrightarrow>
     (0x09 \<le> c \<and> c \<le> 0x0D) \<or> (0x1C \<le> c \<and> c \<le> 0x20) \<or> c = 0x85 \<or> c = 0xA0 \<or>
     c = 0x1680 \<or> (0x2000 \<le> c \<and> c \<le> 0x200A) \<or> c = 0x2028 \<or> c = 0x2029 \<or>
     c = 0x202F \<or> c = 0x205F \<or> c = 0x3000"

definition isspace :: "pystr \<Rightarrow> bool" where
  "isspace s \<longleftrightarrow> s \<noteq> [] \<and> list_all is_whitespace s"

text \<open>
  A file opened in text mode with the default \<open>newline=None\<close> translates CR LF and a
  lone CR to LF as it is read.
\<close>

fun universal_newlines :: "pystr \<Rightarrow> pystr" where
  "universal_newlines [] = []"
| "universal_newlines (c # cs) =
     (if c = 0x0D then
        (case cs of
           [] \<Rightarrow> [0x0A]
         | d # ds \<Rightarrow> if d = 0x0A then 0x0A # universal_newlines ds
                     else 0x0A # universal_newlines (d # ds))
      else c # universal_newlines cs)"

text \<open>
  \<open>f.readline()\<close> on the text that is left: the line up to and with its LF, and the rest.
\<close>

fun readline :: "pystr \<Rightarrow> pystr \<times> pystr" where
  "readline [] = ([], [])"
| "readline (c # cs) =
     (if c = 0x0A then ([c], cs)
      else (case readline cs of (l, r) \<Rightarrow> (c # l, r)))"

text \<open>\<open>str.endswith\<close>.\<close>

definition endswith :: "string \<Rightarrow> string \<Rightarrow> bool" where
  "endswith s suf \<longleftrightarrow> length suf \<le> length s \<and> drop (length s - length suf) s = suf"

subsection \<open>UTF-8\<close>

text \<open>
  The text files are opened with \<open>encoding="utf-8"\<close> and the default strict error
  handling: a malformed sequence (a stray continuation byte, an overlong form, a
  surrogate, a code point above U+10FFFF, a truncated sequence) raises
  \<open>UnicodeDecodeError\<close>.
\<close>

definition is_cont :: "byte \<Rightarrow> bool" where
  "is_cont b \<longleftrightarrow> 0x80 \<le> b \<and> b \<le> 0xBF"

definition cont_bits :: "byte \<Rightarrow> nat" where
  "cont_bits b = unat b - 0x80"

definition second_ok :: "byte \<Rightarrow> byte \<Rightarrow> bool" where
  "second_ok b0 b1 \<longleftrightarrow>
     (if b0 = 0xE0 then 0xA0 \<le> b1 \<and> b1 \<le> 0xBF
      else if b0 = 0xED then 0x80 \<le> b1 \<and> b1 \<le> 0x9F
      else if b0 = 0xF0 then 0x90 \<le> b1 \<and> b1 \<le> 0xBF
      else if b0 = 0xF4 then 0x80 \<le> b1 \<and> b1 \<le> 0x8F
      else is_cont b1)"

definition cons_result :: "'a \<Rightarrow> 'a list result \<Rightarrow> 'a list result" where
  "cons_result x r = (case r of Inl e \<Rightarrow> Inl e | Inr xs \<Rightarrow> Inr (x # xs))"

fun utf8_decode :: "byte list \<Rightarrow> pystr result" where
  "utf8_decode [] = Inr []"
| "utf8_decode (b0 # bs) =
     (if b0 < 0x80 then cons_result (unat b0) (utf8_decode bs)
      else if 0xC2 \<le> b0 \<and> b0 \<le> 0xDF then
        (case bs of
           b1 # r \<Rightarrow>
             if is_cont b1
             then cons_result ((unat b0 - 0xC0) * 64 + cont_bits b1) (utf8_decode r)
             else Inl UnicodeDecodeError
         | _ \<Rightarrow> Inl UnicodeDecodeError)
      else if 0xE0 \<le> b0 \<and> b0 \<le> 0xEF then
        (case bs of
           b1 # b2 # r \<Rightarrow>
             if second_ok b0 b1 \<and> is_cont b2
             then cons_result (((unat b0 - 0xE0) * 64 + cont_bits b1) * 64 + cont_bits b2)
                    (utf8_decode r)
             else Inl UnicodeDecodeError
         | _ \<Rightarrow> Inl UnicodeDecodeError)
      else if 0xF0 \<le> b0 \<and> b0 \<le> 0xF4 then
        (case bs of
           b1 # b2 # b3 # r \<Rightarrow>
             if second_ok b0 b1 \<and> is_cont b2 \<and> is_cont b3
             then cons_result
                    ((((unat b0 - 0xF0) * 64 + cont_bits b1) * 64 + cont_bits b2) * 64 +
                       cont_bits b3)
                    (utf8_decode r)
             else Inl UnicodeDecodeError
         | _ \<Rightarrow> Inl UnicodeDecodeError)
      else Inl UnicodeDecodeError)"

section \<open>The world: files and observable effects\<close>

text \<open>
  The file system maps a path to the bytes of the regular file there. Whether a path
  can be opened for writing depends on directories and permissions, which are not
  modelled one by one: \<open>write_error\<close> gives, for a path, the error that
  \<open>open(path, "wb")\<close> raises there (\<open>FileNotFoundError\<close> for a missing directory,
  for instance), or \<open>None\<close> when the file can be opened. The trace records, in order,
  the files opened, the messages logged and the calls made to the tokenizer.
\<close>

datatype mode = ReadText | ReadBinary | WriteBinary

datatype tokenizer_call =
    BatchEncodePlus "pystr list" bool int
  | Tokenize pystr
  | ConvertTokensToIds "pystr list"
  | BuildInputsWithSpecialTokens "int list"

datatype effect =
    Opened string mode
  | LoggedSamplesLoaded nat
  | LoggedCachingDatasetTo "string option"
  | Called tokenizer_call

record world =
  files :: "string \<rightharpoonup> byte list"
  write_error :: "string \<Rightarrow> error option"
  trace :: "effect list"

definition emit :: "effect list \<Rightarrow> world \<Rightarrow> world" where
  "emit es w = w\<lparr>trace := trace w @ es\<rparr>"

text \<open>\<open>open(path, "rb")\<close>, read to the end. \<open>open(None, ...)\<close> raises \<open>TypeError\<close>.\<close>

definition open_rb :: "string option \<Rightarrow> world \<Rightarrow> byte list result \<times> world" where
  "open_rb file_path w =
     (case file_path of
        None \<Rightarrow> (Inl TypeError, w)
      | Some p \<Rightarrow>
          (case files w p of
             None \<Rightarrow> (Inl FileNotFoundError, w)
           | Some bs \<Rightarrow> (Inr bs, emit [Opened p ReadBinary] w)))"

text \<open>
  \<open>open(path, "r", encoding="utf-8")\<close>: the whole text of the file, decoded, with the
  newlines translated.
\<close>

definition open_text :: "string option \<Rightarrow> world \<Rightarrow> pystr result \<times> world" where
  "open_text file_path w =
     (case file_path of
        None \<Rightarrow> (Inl TypeError, w)
      | Some p \<Rightarrow>
          (case files w p of
             None \<Rightarrow> (Inl FileNotFoundError, w)
           | Some bs \<Rightarrow>
               (case utf8_decode bs of
                  Inl e \<Rightarrow> (Inl e, emit [Opened p ReadText] w)
                | Inr t \<Rightarrow> (Inr (universal_newlines t), emit [Opened p ReadText] w))))"

text \<open>
  \<open>open(path, "wb")\<close> raises \<open>TypeError\<close> on \<open>None\<close>, \<open>FileNotFoundError\<close> on the empty
  path and the error of the file system where the path cannot be written; otherwise it
  creates the file or truncates it.
\<close>

definition open_wb :: "string option \<Rightarrow> world \<Rightarrow> string result \<times> world" where
  "open_wb file_path w =
     (case file_path of
        None \<Rightarrow> (Inl TypeError, w)
      | Some p \<Rightarrow>
          if p = [] then (Inl FileNotFoundError, w)
          else
            (case write_error w p of
               Some e \<Rightarrow> (Inl e, w)
             | None \<Rightarrow>
                 (Inr p, emit [Opened p WriteBinary] (w\<lparr>files := (files w)(p \<mapsto> [])\<rparr>))))"

definition write_bytes :: "string \<Rightarrow> byte list \<Rightarrow> world \<Rightarrow> world" where
  "write_bytes p bs w = w\<lparr>files := (files w)(p \<mapsto> bs)\<rparr>"

text \<open>\<open>os.path.isfile\<close>; it raises \<open>TypeError\<close> on \<open>None\<close>.\<close>

definition isfile :: "string option \<Rightarrow> world \<Rightarrow> bool result" where
  "isfile file_path w =
     (case file_path of None \<Rightarrow> Inl TypeError | Some p \<Rightarrow> Inr (files w p \<noteq> None))"

section \<open>External capabilities\<close>

text \<open>
  The tokenizer is an argument of the constructor; the code uses these four methods and
  two attributes of it and nothing else.
\<close>

record tokenizer =
  batch_encode_plus :: "pystr list \<Rightarrow> bool \<Rightarrow> int \<Rightarrow> int list list"
  tokenize :: "pystr \<Rightarrow> pystr list"
  convert_tokens_to_ids :: "pystr list \<Rightarrow> int list"
  build_inputs_with_special_tokens :: "int list \<Rightarrow> int list"
  max_len :: int
  max_len_single_sentence :: int

text \<open>
  The libraries the module imports and calls: \<open>msgpack.pack\<close> and \<open>msgpack.unpack\<close> on
  a list of lists of integers, and \<open>[str(line) for line in csv.reader(f)]\<close> on the text
  left in the file. They are parameters of the model.
\<close>

record libraries =
  msgpack_pack :: "int list list \<Rightarrow> byte list result"
  msgpack_unpack :: "byte list \<Rightarrow> int list list result"
  csv_reader_strs :: "pystr \<Rightarrow> pystr list result"

text \<open>
  \<open>torch.tensor(xs, dtype=torch.long)\<close>: a tensor of signed 64-bit integers; a value
  that does not fit raises an overflow error, whose class (\<open>RuntimeError\<close> or
  \<open>ValueError\<close>) depends on the version of torch: \<open>TensorOverflow\<close> stands for it.
\<close>

definition fits_long :: "int \<Rightarrow> bool" where
  "fits_long x \<longleftrightarrow> - (2 ^ 63) \<le> x \<and> x < 2 ^ 63"

definition torch_tensor_long :: "int list \<Rightarrow> 64 word list result" where
  "torch_tensor_long xs =
     (if list_all fits_long xs then Inr (map word_of_int xs) else Inl TensorOverflow)"

section \<open>\<open>read_lines_from_file\<close>\<close>

text \<open>
  The helper opens the file as UTF-8 text, reads one line and drops it when \<open>header\<close> is
  true, and then either hands the rest to \<open>csv.reader\<close> (a path ending in \<open>.csv\<close>) or
  keeps the lines of \<open>f.read().splitlines()\<close> with \<open>len(line) > 0 and not line.isspace()\<close>.
\<close>

definition after_header :: "bool \<Rightarrow> pystr \<Rightarrow> pystr" where
  "after_header header content = (if header then snd (readline content) else content)"

definition read_lines_from_file ::
  "libraries \<Rightarrow> string \<Rightarrow> bool \<Rightarrow> world \<Rightarrow> pystr list result \<times> world" where
  "read_lines_from_file L file_path header w =
     (case open_text (Some file_path) w of
        (Inl e, w1) \<Rightarrow> (Inl e, w1)
      | (Inr content, w1) \<Rightarrow>
          (let rest = after_header header content in
           if endswith file_path ''.csv'' then (csv_reader_strs L rest, w1)
           else (Inr (filter (\<lambda>line. 0 < length line \<and> \<not> isspace line) (splitlines rest)),
                 w1)))"

section \<open>\<open>TokenDataset\<close>\<close>

record token_dataset =
  examples :: "int list list"
  str_suffix :: string

text \<open>The arguments of \<open>__init__\<close>; \<open>default_config\<close> holds the defaults of the signature.\<close>

record config =
  tokenizer :: "tokenizer option"
  texts :: "pystr list option"
  line_by_line :: "bool option"
  file_path :: "string option"
  from_cache :: bool
  header :: bool
  save_cache :: bool
  cache_destination :: "string option"
  block_size :: int

definition default_config :: config where
  "default_config =
     \<lparr>tokenizer = None, texts = None, line_by_line = None, file_path = None,
      from_cache = False, header = True, save_cache = False, cache_destination = None,
      block_size = 1024\<rparr>"

subsection \<open>\<open>save\<close>, \<open>__len__\<close>, \<open>__getitem__\<close>\<close>

text \<open>
  \<open>save(self, cache_destination)\<close> with the argument as the caller passes it. The
  assertion comes first; then the message is logged, the file is opened for writing and
  the packed examples are written. \<open>msgpack.pack\<close> packs before it writes, so a failure
  to pack leaves the file opened and empty.
\<close>

definition save ::
  "libraries \<Rightarrow> token_dataset \<Rightarrow> string option \<Rightarrow> world \<Rightarrow> unit result \<times> world" where
  "save L self dest w =
     (if \<not> 0 < length (examples self)
      then (Inl (AssertionError ''No data loaded to save.''), w)
      else
        (let w1 = emit [LoggedCachingDatasetTo dest] w in
         case open_wb dest w1 of
           (Inl e, w2) \<Rightarrow> (Inl e, w2)
         | (Inr p, w2) \<Rightarrow>
             (case msgpack_pack L (examples self) of
                Inl e \<Rightarrow> (Inl e, w2)
              | Inr bs \<Rightarrow> (Inr (), write_bytes p bs w2))))"

text \<open>\<open>save()\<close> called without the argument uses the default of its signature.\<close>

definition save_default_destination :: string where
  "save_default_destination = ''model_cache.msgpack''"

definition save_no_argument ::
  "libraries \<Rightarrow> token_dataset \<Rightarrow> world \<Rightarrow> unit result \<times> world" where
  "save_no_argument L self w = save L self (Some save_default_destination) w"

definition len :: "token_dataset \<Rightarrow> nat" where
  "len self = length (examples self)"

definition getitem :: "token_dataset \<Rightarrow> int \<Rightarrow> 64 word list result" where
  "getitem self item =
     (case py_index (examples self) item of
        Inl e \<Rightarrow> Inl e
      | Inr example \<Rightarrow> torch_tensor_long example)"

subsection \<open>The four ways to fill \<open>examples\<close>\<close>

definition load_cache ::
  "libraries \<Rightarrow> string option \<Rightarrow> world \<Rightarrow> token_dataset result \<times> world" where
  "load_cache L path w =
     (case open_rb path w of
        (Inl e, w1) \<Rightarrow> (Inl e, w1)
      | (Inr bs, w1) \<Rightarrow>
          (case msgpack_unpack L bs of
             Inl e \<Rightarrow> (Inl e, w1)
           | Inr ex \<Rightarrow> (Inr \<lparr>examples = ex, str_suffix = ''via cache.''\<rparr>, w1)))"

definition encode_texts ::
  "tokenizer \<Rightarrow> pystr list \<Rightarrow> int \<Rightarrow> world \<Rightarrow> token_dataset result \<times> world" where
  "encode_texts tok ts bsize w =
     (Inr \<lparr>examples = batch_encode_plus tok ts True bsize, str_suffix = ''via application.''\<rparr>,
      emit [Called (BatchEncodePlus ts True bsize)] w)"

definition encode_line_file ::
  "libraries \<Rightarrow> tokenizer \<Rightarrow> string option \<Rightarrow> bool \<Rightarrow> int \<Rightarrow> world \<Rightarrow>
   token_dataset result \<times> world" where
  "encode_line_file L tok path hdr bsize w =
     (case isfile path w of
        Inl e \<Rightarrow> (Inl e, w)
      | Inr present \<Rightarrow>
          if \<not> present then (Inl (AssertionError []), w)
          else
            (case read_lines_from_file L (the path) hdr w of
               (Inl e, w1) \<Rightarrow> (Inl e, w1)
             | (Inr ts, w1) \<Rightarrow>
                 (Inr \<lparr>examples = batch_encode_plus tok ts True bsize,
                       str_suffix = ''from line-by-line file at '' @ the path @ ''.''\<rparr>,
                  emit [Called (BatchEncodePlus ts True bsize)] w1)))"

text \<open>
  The loop \<open>for i in range(0, len(tokenized_text) - block_size + 1, block_size)\<close> and its
  slices \<open>tokenized_text[i : i + block_size]\<close>, before the special tokens are added.
\<close>

definition chunk_tokens :: "int list \<Rightarrow> int \<Rightarrow> int list list result" where
  "chunk_tokens tokenized_text bsize =
     (if bsize = 0 then Inl ValueError
      else Inr (map (\<lambda>i. py_slice tokenized_text i (i + bsize))
                  (py_range 0 (int (length tokenized_text) - bsize + 1) bsize)))"

definition encode_chunked_file ::
  "tokenizer \<Rightarrow> string option \<Rightarrow> int \<Rightarrow> world \<Rightarrow> token_dataset result \<times> world" where
  "encode_chunked_file tok path bsize0 w =
     (case isfile path w of
        Inl e \<Rightarrow> (Inl e, w)
      | Inr present \<Rightarrow>
          if \<not> present then (Inl (AssertionError []), w)
          else
            (let bsize = bsize0 - (max_len tok - max_len_single_sentence tok) in
             case open_text path w of
               (Inl e, w1) \<Rightarrow> (Inl e, w1)
             | (Inr content, w1) \<Rightarrow>
                 (let tokens = tokenize tok content;
                      tokenized_text = convert_tokens_to_ids tok tokens;
                      w2 = emit [Called (Tokenize content), Called (ConvertTokensToIds tokens)] w1
                  in case chunk_tokens tokenized_text bsize of
                       Inl e \<Rightarrow> (Inl e, w2)
                     | Inr chunks \<Rightarrow>
                         (Inr \<lparr>examples = map (build_inputs_with_special_tokens tok) chunks,
                               str_suffix = ''from file at '' @ the path @ ''.''\<rparr>,
                          emit (map (\<lambda>c. Called (BuildInputsWithSpecialTokens c)) chunks) w2))))"

subsection \<open>\<open>__init__\<close>\<close>

text \<open>
  The \<open>if\<close>/\<open>elif\<close> chain of the constructor. A call on a tokenizer that is \<open>None\<close> raises
  \<open>AttributeError\<close>; the second assertion of \<open>init\<close> keeps the chain from getting there.
  The \<open>assert\<close> statements of the module are executed, as they are when the interpreter
  runs without \<open>-O\<close>.
\<close>

definition populate :: "libraries \<Rightarrow> config \<Rightarrow> world \<Rightarrow> token_dataset result \<times> world" where
  "populate L c w =
     (if from_cache c then load_cache L (file_path c) w
      else if texts c \<noteq> None then
        (case tokenizer c of
           None \<Rightarrow> (Inl AttributeError, w)
         | Some tok \<Rightarrow> encode_texts tok (the (texts c)) (block_size c) w)
      else if line_by_line c = Some True then
        (case tokenizer c of
           None \<Rightarrow>
             (case isfile (file_path c) w of
                Inl e \<Rightarrow> (Inl e, w)
              | Inr present \<Rightarrow>
                  if \<not> present then (Inl (AssertionError []), w)
                  else
                    (case read_lines_from_file L (the (file_path c)) (header c) w of
                       (Inl e, w1) \<Rightarrow> (Inl e, w1)
                     | (Inr ts, w1) \<Rightarrow> (Inl AttributeError, w1)))
         | Some tok \<Rightarrow> encode_line_file L tok (file_path c) (header c) (block_size c) w)
      else
        (case tokenizer c of
           None \<Rightarrow>
             (case isfile (file_path c) w of
                Inl e \<Rightarrow> (Inl e, w)
              | Inr present \<Rightarrow>
                  if \<not> present then (Inl (AssertionError []), w) else (Inl AttributeError, w))
         | Some tok \<Rightarrow> encode_chunked_file tok (file_path c) (block_size c) w))"

definition init :: "libraries \<Rightarrow> config \<Rightarrow> world \<Rightarrow> token_dataset result \<times> world" where
  "init L c w =
     (if \<not> (truthy (texts c) \<or> truthy (file_path c))
      then (Inl (AssertionError ''texts or file_path must be specified.''), w)
      else if \<not> from_cache c \<and> tokenizer c = None
      then (Inl (AssertionError ''A tokenizer must be specified.''), w)
      else
        (case populate L c w of
           (Inl e, w1) \<Rightarrow> (Inl e, w1)
         | (Inr self, w1) \<Rightarrow>
             (let w2 = emit [LoggedSamplesLoaded (length (examples self))] w1 in
              if save_cache c then
                (case save L self (cache_destination c) w2 of
                   (Inl e, w3) \<Rightarrow> (Inl e, w3)
                 | (Inr u, w3) \<Rightarrow> (Inr self, w3))
              else (Inr self, w2))))"

section \<open>Instances of the external capabilities\<close>

text \<open>
  The theorems below hold for every tokenizer and every library. The concrete instances
  of them are evaluated with the tokenizer and the codec of this section: a tokenizer
  with one token per character and two special tokens, and the integer and array
  families of the message-pack format (fixint, uint 8 to 64, int 8 to 64, fixarray,
  array 16, array 32), big-endian, each value in its shortest form.
\<close>

definition char_tokenizer :: tokenizer where
  "char_tokenizer =
     \<lparr>batch_encode_plus =
        (\<lambda>ts add_special_tokens max_length.
           map (\<lambda>t. take (nat max_length)
                       (if add_special_tokens then 1 # map int t @ [2] else map int t)) ts),
      tokenize = map (\<lambda>ch. [ch]),
      convert_tokens_to_ids = map (\<lambda>t. case t of [] \<Rightarrow> 0 | ch # _ \<Rightarrow> int ch),
      build_inputs_with_special_tokens = (\<lambda>ids. 1 # ids @ [2]),
      max_len = 512,
      max_len_single_sentence = 510\<rparr>"

definition be_bytes :: "nat \<Rightarrow> nat \<Rightarrow> byte list" where
  "be_bytes k n = map (\<lambda>i. of_nat (n div 256 ^ i)) (rev [0..<k])"

definition be_value :: "byte list \<Rightarrow> nat" where
  "be_value bs = foldl (\<lambda>a b. a * 256 + unat b) 0 bs"

definition mp_pack_int :: "int \<Rightarrow> byte list result" where
  "mp_pack_int n =
     (if 0 \<le> n then
        (if n < 2 ^ 7 then Inr [of_int n]
         else if n < 2 ^ 8 then Inr (0xCC # be_bytes 1 (nat n))
         else if n < 2 ^ 16 then Inr (0xCD # be_bytes 2 (nat n))
         else if n < 2 ^ 32 then Inr (0xCE # be_bytes 4 (nat n))
         else if n < 2 ^ 64 then Inr (0xCF # be_bytes 8 (nat n))
         else Inl OverflowError)
      else
        (if - 32 \<le> n then Inr [of_int n]
         else if - (2 ^ 7) \<le> n then Inr (0xD0 # be_bytes 1 (nat (n + 2 ^ 8)))
         else if - (2 ^ 15) \<le> n then Inr (0xD1 # be_bytes 2 (nat (n + 2 ^ 16)))
         else if - (2 ^ 31) \<le> n then Inr (0xD2 # be_bytes 4 (nat (n + 2 ^ 32)))
         else if - (2 ^ 63) \<le> n then Inr (0xD3 # be_bytes 8 (nat (n + 2 ^ 64)))
         else Inl OverflowError))"

definition mp_array_header :: "nat \<Rightarrow> byte list result" where
  "mp_array_header n =
     (if n < 16 then Inr [0x90 + of_nat n]
      else if n < 2 ^ 16 then Inr (0xDC # be_bytes 2 n)
      else if n < 2 ^ 32 then Inr (0xDD # be_bytes 4 n)
      else Inl ValueError)"

fun mp_concat :: "byte list result list \<Rightarrow> byte list result" where
  "mp_concat [] = Inr []"
| "mp_concat (r # rs) =
     (case r of
        Inl e \<Rightarrow> Inl e
      | Inr bs \<Rightarrow> (case mp_concat rs of Inl e \<Rightarrow> Inl e | Inr cs \<Rightarrow> Inr (bs @ cs)))"

definition mp_pack_list :: "('a \<Rightarrow> byte list result) \<Rightarrow> 'a list \<Rightarrow> byte list result" where
  "mp_pack_list f xs =
     (case mp_array_header (length xs) of
        Inl e \<Rightarrow> Inl e
      | Inr h \<Rightarrow> (case mp_concat (map f xs) of Inl e \<Rightarrow> Inl e | Inr body \<Rightarrow> Inr (h @ body)))"

definition mp_pack :: "int list list \<Rightarrow> byte list result" where
  "mp_pack = mp_pack_list (mp_pack_list mp_pack_int)"

definition mp_take :: "nat \<Rightarrow> byte list \<Rightarrow> (byte list \<times> byte list) result" where
  "mp_take k bs = (if length bs < k then Inl UnpackError else Inr (take k bs, drop k bs))"

definition mp_unsigned :: "nat \<Rightarrow> byte list \<Rightarrow> (int \<times> byte list) result" where
  "mp_unsigned k bs =
     (case mp_take k bs of
        Inl e \<Rightarrow> Inl e
      | Inr (x, r) \<Rightarrow> Inr (int (be_value x), r))"

definition mp_signed :: "nat \<Rightarrow> byte list \<Rightarrow> (int \<times> byte list) result" where
  "mp_signed k bs =
     (case mp_take k bs of
        Inl e \<Rightarrow> Inl e
      | Inr (x, r) \<Rightarrow>
          (let v = int (be_value x)
           in Inr (if 2 ^ (8 * k - 1) \<le> v then v - 2 ^ (8 * k) else v, r)))"

definition mp_unpack_int :: "byte list \<Rightarrow> (int \<times> byte list) result" where
  "mp_unpack_int bs =
     (case bs of
        [] \<Rightarrow> Inl UnpackError
      | b # r \<Rightarrow>
          if b < 0x80 then Inr (uint b, r)
          else if 0xE0 \<le> b then Inr (sint b, r)
          else if b = 0xCC then mp_unsigned 1 r
          else if b = 0xCD then mp_unsigned 2 r
          else if b = 0xCE then mp_unsigned 4 r
          else if b = 0xCF then mp_unsigned 8 r
          else if b = 0xD0 then mp_signed 1 r
          else if b = 0xD1 then mp_signed 2 r
          else if b = 0xD2 then mp_signed 4 r
          else if b = 0xD3 then mp_signed 8 r
          else Inl UnpackError)"

definition mp_unpack_array_header :: "byte list \<Rightarrow> (nat \<times> byte list) result" where
  "mp_unpack_array_header bs =
     (case bs of
        [] \<Rightarrow> Inl UnpackError
      | b # r \<Rightarrow>
          if 0x90 \<le> b \<and> b \<le> 0x9F then Inr (unat b - 0x90, r)
          else if b = 0xDC then
            (case mp_take 2 r of Inl e \<Rightarrow> Inl e | Inr (x, r') \<Rightarrow> Inr (be_value x, r'))
          else if b = 0xDD then
            (case mp_take 4 r of Inl e \<Rightarrow> Inl e | Inr (x, r') \<Rightarrow> Inr (be_value x, r'))
          else Inl UnpackError)"

fun mp_unpack_n ::
  "(byte list \<Rightarrow> ('a \<times> byte list) result) \<Rightarrow> nat \<Rightarrow> byte list \<Rightarrow> ('a list \<times> byte list) result"
  where
  "mp_unpack_n f 0 bs = Inr ([], bs)"
| "mp_unpack_n f (Suc n) bs =
     (case f bs of
        Inl e \<Rightarrow> Inl e
      | Inr (x, r) \<Rightarrow>
          (case mp_unpack_n f n r of
             Inl e \<Rightarrow> Inl e
           | Inr (xs, r') \<Rightarrow> Inr (x # xs, r')))"

definition mp_unpack_list ::
  "(byte list \<Rightarrow> ('a \<times> byte list) result) \<Rightarrow> byte list \<Rightarrow> ('a list \<times> byte list) result" where
  "mp_unpack_list f bs =
     (case mp_unpack_array_header bs of
        Inl e \<Rightarrow> Inl e
      | Inr (n, r) \<Rightarrow> mp_unpack_n f n r)"

text \<open>
  \<open>msgpack.unpack\<close> reads one value and refuses bytes left after it. The examples of the
  model are lists of lists of integers, so this codec decodes such a value and nothing
  else: a cache that holds another message-pack value (a flat list, nil, a string),
  which the code would load unchecked, is an \<open>UnpackError\<close> here.
\<close>

definition mp_unpack :: "byte list \<Rightarrow> int list list result" where
  "mp_unpack bs =
     (case mp_unpack_list (mp_unpack_list mp_unpack_int) bs of
        Inl e \<Rightarrow> Inl e
      | Inr (v, r) \<Rightarrow> if r = [] then Inr v else Inl UnpackError)"

text \<open>No instance below reads a CSV file: this reader refuses every input.\<close>

definition msgpack_libraries :: libraries where
  "msgpack_libraries =
     \<lparr>msgpack_pack = mp_pack, msgpack_unpack = mp_unpack,
      csv_reader_strs = (\<lambda>rest. Inl CsvError)\<rparr>"

text \<open>
  A world with five files: a cache holding \<open>[[1, 2, 3]]\<close>, a text of seven letters
  \<open>abcdefg\<close>, a text of five lines \<open>title\<close>, \<open>ab\<close>, a blank, an empty line and \<open>cd\<close>, a text
  \<open>a\<close> FF \<open>b\<close> LF with a form feed in its only line, and a text \<open>h\<close> FF \<open>x\<close> LF \<open>a\<close> LF
  with a form feed in its first line. Every path can be written but one under a
  directory that does not exist.
\<close>

definition sample_world :: world where
  "sample_world =
     \<lparr>files =
        [''cache.msgpack'' \<mapsto> [0x91, 0x93, 0x01, 0x02, 0x03],
         ''corpus.txt'' \<mapsto> [0x61, 0x62, 0x63, 0x64, 0x65, 0x66, 0x67],
         ''lines.txt'' \<mapsto>
           [0x74, 0x69, 0x74, 0x6C, 0x65, 0x0A, 0x61, 0x62, 0x0A, 0x20, 0x0A, 0x0A,
            0x63, 0x64, 0x0A],
         ''formfeed.txt'' \<mapsto> [0x61, 0x0C, 0x62, 0x0A],
         ''headed.txt'' \<mapsto> [0x68, 0x0C, 0x78, 0x0A, 0x61, 0x0A]],
      write_error = (\<lambda>p. if p = ''nodir/out.msgpack'' then Some FileNotFoundError else None),
      trace = []\<rparr>"

text \<open>Four calls of the constructor, one for each way to fill \<open>examples\<close>.\<close>

definition cache_and_texts_config :: config where
  "cache_and_texts_config =
     default_config\<lparr>tokenizer := Some char_tokenizer, texts := Some [[0x68, 0x69]],
       file_path := Some ''cache.msgpack'', from_cache := True\<rparr>"

definition texts_config :: config where
  "texts_config = default_config\<lparr>tokenizer := Some char_tokenizer, texts := Some [[0x61]]\<rparr>"

definition line_config :: config where
  "line_config =
     default_config\<lparr>tokenizer := Some char_tokenizer, line_by_line := Some True,
       file_path := Some ''lines.txt''\<rparr>"

definition chunk_config :: config where
  "chunk_config =
     default_config\<lparr>tokenizer := Some char_tokenizer, file_path := Some ''corpus.txt''\<rparr>"

section \<open>What the statements speak of\<close>

text \<open>The calls to the tokenizer among the effects of a run.\<close>

fun tokenizer_calls :: "effect list \<Rightarrow> tokenizer_call list" where
  "tokenizer_calls [] = []"
| "tokenizer_calls (Called c # es) = c # tokenizer_calls es"
| "tokenizer_calls (e # es) = tokenizer_calls es"

text \<open>
  Splitting a text at every character that satisfies \<open>sep\<close>, as \<open>str.split\<close> does at a
  separator: the pieces between the separators, empty ones included.
\<close>

fun split_at :: "(nat \<Rightarrow> bool) \<Rightarrow> pystr \<Rightarrow> pystr list" where
  "split_at sep [] = [[]]"
| "split_at sep (c # cs) =
     (if sep c then [] # split_at sep cs
      else (case split_at sep cs of [] \<Rightarrow> [[c]] | l # ls \<Rightarrow> (c # l) # ls))"

text \<open>The lines the specification speaks of: split at LF only.\<close>

definition newline_split :: "pystr \<Rightarrow> pystr list" where
  "newline_split s = split_at (\<lambda>c. c = 0x0A) s"

definition nonblank :: "pystr \<Rightarrow> bool" where
  "nonblank line \<longleftrightarrow> line \<noteq> [] \<and> \<not> list_all is_whitespace line"

text \<open>
  What the message-pack format can hold: integers of 64 bits, signed or unsigned, in
  arrays of fewer than \<open>2 ^ 32\<close> elements.
\<close>

text \<open>A path that \<open>open(path, "wb")\<close> accepts.\<close>

definition can_write :: "world \<Rightarrow> string \<Rightarrow> bool" where
  "can_write w p \<longleftrightarrow> p \<noteq> [] \<and> write_error w p = None"

definition packable :: "int list list \<Rightarrow> bool" where
  "packable ex \<longleftrightarrow>
     length ex < 2 ^ 32 \<and>
     list_all (\<lambda>x. length x < 2 ^ 32 \<and> list_all (\<lambda>n. - (2 ^ 63) \<le> n \<and> n < 2 ^ 64) x) ex"

section \<open>Effects of the operations\<close>

lemma trace_emit [simp]: "trace (emit es w) = trace w @ es"
  by (simp add: emit_def)

lemma files_emit [simp]: "files (emit es w) = files w"
  by (simp add: emit_def)

lemma write_error_emit [simp]: "write_error (emit es w) = write_error w"
  by (simp add: emit_def)

lemma tokenizer_calls_append [simp]:
  "tokenizer_calls (xs @ ys) = tokenizer_calls xs @ tokenizer_calls ys"
  by (induction xs rule: tokenizer_calls.induct) simp_all

lemma calls_load_cache:
  "tokenizer_calls (trace (snd (load_cache L p w))) = tokenizer_calls (trace w)"
  by (simp add: load_cache_def open_rb_def split: option.split sum.split)

lemma calls_save:
  "tokenizer_calls (trace (snd (save L self d w))) = tokenizer_calls (trace w)"
  by (simp add: save_def open_wb_def write_bytes_def Let_def split: option.split sum.split)

lemma calls_init_cache:
  assumes "from_cache c"
  shows "tokenizer_calls (trace (snd (init L c w))) = tokenizer_calls (trace w)"
proof (cases "truthy (texts c) \<or> truthy (file_path c)")
  case False
  then show ?thesis by (simp add: init_def)
next
  case True
  show ?thesis
  proof (cases "load_cache L (file_path c) w")
    case (Pair r w1)
    have w1: "tokenizer_calls (trace w1) = tokenizer_calls (trace w)"
      using calls_load_cache[of L "file_path c" w] Pair by simp
    show ?thesis
    proof (cases r)
      case (Inl e)
      with Pair True assms w1 show ?thesis by (simp add: init_def populate_def)
    next
      case (Inr self)
      have "tokenizer_calls (trace (snd (save L self (cache_destination c)
              (emit [LoggedSamplesLoaded (length (examples self))] w1)))) =
            tokenizer_calls (trace w)"
        using w1 by (simp add: calls_save)
      with Pair Inr True assms w1 show ?thesis
        by (auto simp: init_def populate_def Let_def split: prod.split sum.split)
    qed
  qed
qed

lemma init_ignores_tokenizer_from_cache:
  "from_cache c \<Longrightarrow> init L (c\<lparr>tokenizer := t\<rparr>) w = init L c w"
  by (simp add: init_def populate_def Let_def split: prod.split sum.split)

lemma init_str_suffix:
  "init L c w = (Inr self, w') \<Longrightarrow>
   str_suffix self =
     (if from_cache c then ''via cache.''
      else if texts c \<noteq> None then ''via application.''
      else if line_by_line c = Some True
        then ''from line-by-line file at '' @ the (file_path c) @ ''.''
      else ''from file at '' @ the (file_path c) @ ''.'')"
  by (auto simp: init_def populate_def load_cache_def encode_texts_def encode_line_file_def
        encode_chunked_file_def Let_def
      split: if_splits prod.splits sum.splits option.splits)

section \<open>Indexing\<close>

lemma py_index_out:
  "i < - int (length xs) \<or> int (length xs) \<le> i \<Longrightarrow> py_index xs i = Inl IndexError"
  by (auto simp: py_index_def Let_def)

lemma py_index_nonneg:
  "0 \<le> i \<Longrightarrow> i < int (length xs) \<Longrightarrow> py_index xs i = Inr (xs ! nat i)"
  by (auto simp: py_index_def Let_def)

lemma py_index_neg:
  "- int (length xs) \<le> i \<Longrightarrow> i < 0 \<Longrightarrow> py_index xs i = Inr (xs ! nat (i + int (length xs)))"
  by (auto simp: py_index_def Let_def)

lemma sint_long: "fits_long x \<Longrightarrow> sint (word_of_int x :: 64 word) = x"
  unfolding fits_long_def
  by (simp add: sint_sbintrunc' signed_take_bit_int_eq_self)

lemma torch_tensor_long_exact:
  "list_all fits_long xs \<Longrightarrow> \<exists>t. torch_tensor_long xs = Inr t \<and> map sint t = xs"
  by (auto simp: torch_tensor_long_def list_all_iff sint_long intro: map_idI)

section \<open>Saving\<close>

text \<open>
  Claim C5. \<open>save\<close> on a dataset with no examples fails on its assertion
  (\<open>No data loaded to save.\<close>) and leaves the world as it was: no file is opened, created
  or changed, and nothing is logged.
\<close>

theorem save_empty_rejected:
  "examples self = [] \<Longrightarrow>
   save L self dest w = (Inl (AssertionError ''No data loaded to save.''), w)"
  by (simp add: save_def)

theorem save_empty_rejected_witness:
  "save msgpack_libraries \<lparr>examples = [], str_suffix = ''via cache.''\<rparr>
     (Some ''model_cache.msgpack'') sample_world =
   (Inl (AssertionError ''No data loaded to save.''), sample_world)"
  using save_empty_rejected
          [of "\<lparr>examples = [], str_suffix = ''via cache.''\<rparr>" msgpack_libraries
              "Some ''model_cache.msgpack''" sample_world]
  by simp

section \<open>\<open>__getitem__\<close>\<close>

text \<open>
  Claim C8, as the code has it. An index below \<open>-len\<close> or from \<open>len\<close> on raises
  \<open>IndexError\<close>; an index in \<open>[0, len)\<close> gives that example, and an index in \<open>[-len, 0)\<close>
  gives the example counted from the end, each as a tensor of signed 64-bit integers that
  reads back, element for element, as the stored sequence whenever its ids fit in 64 bits.
\<close>

theorem getitem_index:
  "(item < - int (len self) \<or> int (len self) \<le> item \<longrightarrow> getitem self item = Inl IndexError) \<and>
   (0 \<le> item \<and> item < int (len self) \<and> list_all fits_long (examples self ! nat item) \<longrightarrow>
      (\<exists>t. getitem self item = Inr t \<and> map sint t = examples self ! nat item)) \<and>
   (- int (len self) \<le> item \<and> item < 0 \<and>
      list_all fits_long (examples self ! nat (item + int (len self))) \<longrightarrow>
      (\<exists>t. getitem self item = Inr t \<and>
           map sint t = examples self ! nat (item + int (len self))))"
  by (auto simp: getitem_def len_def py_index_out py_index_nonneg py_index_neg
      dest: torch_tensor_long_exact)

text \<open>The claim at a dataset of two examples, for the indices 2, -3, 0 and -1.\<close>

theorem getitem_index_witness:
  "getitem \<lparr>examples = [[1, 10, 20, 2], [1, 30, 2]], str_suffix = ''via application.''\<rparr> 2 =
     Inl IndexError \<and>
   getitem \<lparr>examples = [[1, 10, 20, 2], [1, 30, 2]], str_suffix = ''via application.''\<rparr> (- 3) =
     Inl IndexError \<and>
   (\<exists>t. getitem \<lparr>examples = [[1, 10, 20, 2], [1, 30, 2]], str_suffix = ''via application.''\<rparr> 0
          = Inr t \<and> map sint t = [1, 10, 20, 2]) \<and>
   (\<exists>t. getitem \<lparr>examples = [[1, 10, 20, 2], [1, 30, 2]], str_suffix = ''via application.''\<rparr> (- 1)
          = Inr t \<and> map sint t = [1, 30, 2])"
  using getitem_index
          [of 2 "\<lparr>examples = [[1, 10, 20, 2], [1, 30, 2]], str_suffix = ''via application.''\<rparr>"]
        getitem_index
          [of "- 3" "\<lparr>examples = [[1, 10, 20, 2], [1, 30, 2]], str_suffix = ''via application.''\<rparr>"]
        getitem_index
          [of 0 "\<lparr>examples = [[1, 10, 20, 2], [1, 30, 2]], str_suffix = ''via application.''\<rparr>"]
        getitem_index
          [of "- 1" "\<lparr>examples = [[1, 10, 20, 2], [1, 30, 2]], str_suffix = ''via application.''\<rparr>"]
  by (simp add: len_def fits_long_def)

text \<open>
  Claim C8 as it is stated fails at the index -1, which is outside \<open>[0, len)\<close>: the code
  returns the last example instead of raising.
\<close>

theorem getitem_negative_index:
  "getitem \<lparr>examples = [[1, 10, 20, 2], [1, 30, 2]], str_suffix = ''via application.''\<rparr> (- 1) =
     Inr [1, 30, 2] \<and>
   \<not> (0 \<le> (- 1 :: int) \<and>
      (- 1 :: int) < int (len \<lparr>examples = [[1, 10, 20, 2], [1, 30, 2]],
                               str_suffix = ''via application.''\<rparr>))"
  by (simp add: getitem_def py_index_def torch_tensor_long_def fits_long_def len_def)

section \<open>The checks of the constructor\<close>

text \<open>
  Claim C9. The constructor fails on its first assertion when neither \<open>texts\<close> nor
  \<open>file_path\<close> is given (or both are empty), and on an assertion when \<open>from_cache\<close> is
  false and there is no tokenizer; with \<open>from_cache\<close> true, the run without a tokenizer
  is the run with one.
\<close>

theorem init_preconditions:
  "(\<not> truthy (texts c) \<and> \<not> truthy (file_path c) \<longrightarrow>
      init L c w = (Inl (AssertionError ''texts or file_path must be specified.''), w)) \<and>
   (\<not> from_cache c \<and> tokenizer c = None \<longrightarrow>
      (\<exists>msg. init L c w = (Inl (AssertionError msg), w))) \<and>
   (\<not> from_cache c \<and> tokenizer c = None \<and> (truthy (texts c) \<or> truthy (file_path c)) \<longrightarrow>
      init L c w = (Inl (AssertionError ''A tokenizer must be specified.''), w)) \<and>
   (from_cache c \<longrightarrow> init L (c\<lparr>tokenizer := None\<rparr>) w = init L c w)"
  by (simp add: init_ignores_tokenizer_from_cache) (simp add: init_def)

text \<open>
  The claim at three calls: no argument at all, texts without a tokenizer, and the cache
  without a tokenizer, which loads.
\<close>

theorem init_preconditions_witness:
  "init msgpack_libraries default_config sample_world =
     (Inl (AssertionError ''texts or file_path must be specified.''), sample_world) \<and>
   init msgpack_libraries (default_config\<lparr>texts := Some [[0x61]]\<rparr>) sample_world =
     (Inl (AssertionError ''A tokenizer must be specified.''), sample_world) \<and>
   init msgpack_libraries (cache_and_texts_config\<lparr>tokenizer := None\<rparr>) sample_world =
     init msgpack_libraries cache_and_texts_config sample_world \<and>
   fst (init msgpack_libraries (cache_and_texts_config\<lparr>tokenizer := None\<rparr>) sample_world) =
     Inr \<lparr>examples = [[1, 2, 3]], str_suffix = ''via cache.''\<rparr>"
proof -
  have "fst (init msgpack_libraries (cache_and_texts_config\<lparr>tokenizer := None\<rparr>) sample_world) =
     Inr \<lparr>examples = [[1, 2, 3]], str_suffix = ''via cache.''\<rparr>"
    by code_simp
  then show ?thesis
    using init_preconditions [of default_config msgpack_libraries sample_world]
      init_preconditions [of "default_config\<lparr>texts := Some [[0x61]]\<rparr>" msgpack_libraries sample_world]
      init_preconditions [of cache_and_texts_config msgpack_libraries sample_world]
    by (simp add: default_config_def cache_and_texts_config_def)
qed

section \<open>The choice among the four ways\<close>

lemma fst_init_cache_and_texts:
  "fst (init msgpack_libraries cache_and_texts_config sample_world) =
     Inr \<lparr>examples = [[1, 2, 3]], str_suffix = ''via cache.''\<rparr>"
  by code_simp

text \<open>
  Claim C3. The branch is a function of the arguments, taken in the order cache, texts,
  line-by-line file, chunked file. With \<open>from_cache\<close> true the constructor loads the cache
  whatever \<open>texts\<close> holds, its run adds no call to the tokenizer, and it is the same run for
  every tokenizer. A construction that succeeds names its branch in \<open>str_suffix\<close>.
\<close>

theorem strategy_priority:
  "(from_cache c \<longrightarrow>
      populate L c w = load_cache L (file_path c) w \<and>
      tokenizer_calls (trace (snd (init L c w))) = tokenizer_calls (trace w) \<and>
      init L (c\<lparr>tokenizer := t\<rparr>) w = init L c w) \<and>
   (\<not> from_cache c \<and> texts c = Some ts \<and> tokenizer c = Some tok \<longrightarrow>
      populate L c w = encode_texts tok ts (block_size c) w) \<and>
   (\<not> from_cache c \<and> texts c = None \<and> line_by_line c = Some True \<and> tokenizer c = Some tok \<longrightarrow>
      populate L c w = encode_line_file L tok (file_path c) (header c) (block_size c) w) \<and>
   (\<not> from_cache c \<and> texts c = None \<and> line_by_line c \<noteq> Some True \<and> tokenizer c = Some tok \<longrightarrow>
      populate L c w = encode_chunked_file tok (file_path c) (block_size c) w) \<and>
   (\<forall>self w'. init L c w = (Inr self, w') \<longrightarrow>
      str_suffix self =
        (if from_cache c then ''via cache.''
         else if texts c \<noteq> None then ''via application.''
         else if line_by_line c = Some True
           then ''from line-by-line file at '' @ the (file_path c) @ ''.''
         else ''from file at '' @ the (file_path c) @ ''.''))"
proof -
  have "from_cache c \<longrightarrow> populate L c w = load_cache L (file_path c) w"
    by (simp add: populate_def)
  moreover have "from_cache c \<longrightarrow>
      tokenizer_calls (trace (snd (init L c w))) = tokenizer_calls (trace w)"
    by (simp add: calls_init_cache)
  moreover have "from_cache c \<longrightarrow> init L (c\<lparr>tokenizer := t\<rparr>) w = init L c w"
    by (simp add: init_ignores_tokenizer_from_cache)
  moreover have "\<not> from_cache c \<and> texts c = Some ts \<and> tokenizer c = Some tok \<longrightarrow>
      populate L c w = encode_texts tok ts (block_size c) w"
    by (simp add: populate_def)
  moreover have "\<not> from_cache c \<and> texts c = None \<and> line_by_line c = Some True \<and>
      tokenizer c = Some tok \<longrightarrow>
      populate L c w = encode_line_file L tok (file_path c) (header c) (block_size c) w"
    by (simp add: populate_def)
  moreover have "\<not> from_cache c \<and> texts c = None \<and> line_by_line c \<noteq> Some True \<and>
      tokenizer c = Some tok \<longrightarrow>
      populate L c w = encode_chunked_file tok (file_path c) (block_size c) w"
    by (simp add: populate_def)
  moreover have "\<forall>self w'. init L c w = (Inr self, w') \<longrightarrow>
      str_suffix self =
        (if from_cache c then ''via cache.''
         else if texts c \<noteq> None then ''via application.''
         else if line_by_line c = Some True
           then ''from line-by-line file at '' @ the (file_path c) @ ''.''
         else ''from file at '' @ the (file_path c) @ ''.'')"
    using init_str_suffix by blast
  ultimately show ?thesis by blast
qed

text \<open>
  The claim at the four calls of the last section; the first gives both \<open>from_cache\<close> and
  \<open>texts\<close>, loads the cache and calls no tokenizer.
\<close>

theorem strategy_priority_witness:
  "populate msgpack_libraries cache_and_texts_config sample_world =
     load_cache msgpack_libraries (Some ''cache.msgpack'') sample_world \<and>
   tokenizer_calls (trace (snd (init msgpack_libraries cache_and_texts_config sample_world))) = [] \<and>
   fst (init msgpack_libraries cache_and_texts_config sample_world) =
     Inr \<lparr>examples = [[1, 2, 3]], str_suffix = ''via cache.''\<rparr> \<and>
   populate msgpack_libraries texts_config sample_world =
     encode_texts char_tokenizer [[0x61]] 1024 sample_world \<and>
   populate msgpack_libraries line_config sample_world =
     encode_line_file msgpack_libraries char_tokenizer (Some ''lines.txt'') True 1024 sample_world \<and>
   populate msgpack_libraries chunk_config sample_world =
     encode_chunked_file char_tokenizer (Some ''corpus.txt'') 1024 sample_world"
  using strategy_priority [where c = cache_and_texts_config and L = msgpack_libraries
          and w = sample_world]
        strategy_priority [where c = texts_config and L = msgpack_libraries
          and w = sample_world and ts = "[[0x61]]" and tok = char_tokenizer]
        strategy_priority [where c = line_config and L = msgpack_libraries
          and w = sample_world and tok = char_tokenizer]
        strategy_priority [where c = chunk_config and L = msgpack_libraries
          and w = sample_world and tok = char_tokenizer]
        fst_init_cache_and_texts
  by (simp add: cache_and_texts_config_def texts_config_def line_config_def chunk_config_def
        default_config_def sample_world_def)

section \<open>Empty datasets\<close>

text \<open>
  Claim C4, as the code has it. Only \<open>save\<close> rejects an empty dataset, so a construction
  that was asked to save its cache and succeeded has at least one example.
\<close>

theorem saved_construction_nonempty:
  "save_cache c \<Longrightarrow> init L c w = (Inr self, w') \<Longrightarrow> examples self \<noteq> []"
  by (auto simp: init_def save_def Let_def split: if_splits prod.splits sum.splits)

text \<open>The claim at a call with one text, saved to \<open>out.msgpack\<close>.\<close>

theorem saved_construction_nonempty_witness:
  "save_cache (texts_config\<lparr>save_cache := True, cache_destination := Some ''out.msgpack''\<rparr>) \<and>
   fst (init msgpack_libraries
          (texts_config\<lparr>save_cache := True, cache_destination := Some ''out.msgpack''\<rparr>)
          sample_world) =
     Inr \<lparr>examples = [[1, 0x61, 2]], str_suffix = ''via application.''\<rparr> \<and>
   examples \<lparr>examples = [[1, 0x61, 2]], str_suffix = ''via application.''\<rparr> \<noteq> []"
proof -
  let ?c = "texts_config\<lparr>save_cache := True, cache_destination := Some ''out.msgpack''\<rparr>"
  let ?d = "\<lparr>examples = [[1, 0x61, 2]], str_suffix = ''via application.''\<rparr>"
  have r: "fst (init msgpack_libraries ?c sample_world) = Inr ?d"
    by code_simp
  then have "init msgpack_libraries ?c sample_world =
      (Inr ?d, snd (init msgpack_libraries ?c sample_world))"
    by (simp add: prod_eq_iff)
  from saved_construction_nonempty [OF _ this] r show ?thesis
    by simp
qed

text \<open>
  Claim C4 as it is stated fails without \<open>save_cache\<close>: the file \<open>corpus.txt\<close> has seven
  tokens, the block size is 1024 - 2, no chunk is complete, and the constructor returns a
  dataset with no example.
\<close>

theorem empty_construction_succeeds:
  "fst (init msgpack_libraries chunk_config sample_world) =
     Inr \<lparr>examples = [], str_suffix = ''from file at corpus.txt.''\<rparr>"
  by code_simp

section \<open>Saving the cache from the constructor\<close>

lemma save_cache_destination_none:
  "save_cache c \<Longrightarrow> cache_destination c = None \<Longrightarrow> \<exists>e. fst (init L c w) = Inl e"
  by (auto simp: init_def save_def open_wb_def Let_def split: prod.splits sum.splits)

lemma save_cache_destination_some:
  "save_cache c \<Longrightarrow> cache_destination c = Some p \<Longrightarrow> init L c w = (Inr self, w') \<Longrightarrow>
   msgpack_pack L (examples self) = Inr bs \<Longrightarrow> files w' p = Some bs"
  by (auto simp: init_def save_def open_wb_def write_bytes_def Let_def
      split: if_splits prod.splits sum.splits option.splits)

text \<open>
  Claim C10 at a call with \<open>save_cache\<close> and no \<open>cache_destination\<close>. The constructor
  passes \<open>None\<close> to \<open>save\<close>, which logs it and fails in \<open>open\<close> with \<open>TypeError\<close>; the
  default of \<open>save\<close>, \<open>model_cache.msgpack\<close>, is used only by a call of \<open>save\<close> without an
  argument, and is not written here.
\<close>

theorem save_cache_without_destination:
  "fst (init msgpack_libraries (texts_config\<lparr>save_cache := True\<rparr>) sample_world) = Inl TypeError \<and>
   trace (snd (init msgpack_libraries (texts_config\<lparr>save_cache := True\<rparr>) sample_world)) =
     [Called (BatchEncodePlus [[0x61]] True 1024), LoggedSamplesLoaded 1,
      LoggedCachingDatasetTo None] \<and>
   files (snd (init msgpack_libraries (texts_config\<lparr>save_cache := True\<rparr>) sample_world))
     save_default_destination = None \<and>
   files (snd (save_no_argument msgpack_libraries
                 \<lparr>examples = [[1, 0x61, 2]], str_suffix = ''via application.''\<rparr> sample_world))
     save_default_destination = Some [0x91, 0x93, 0x01, 0x61, 0x02]"
  by code_simp

section \<open>Chunking a tokenized file\<close>

lemma py_range_chunks:
  assumes "0 < b"
  shows "py_range (int (j * b)) (int L - int b + 1) (int b) =
         map (\<lambda>k. int (k * b)) [j..<L div b]"
proof (induction "L div b - j" arbitrary: j)
  case 0
  define m where "m = j * b"
  from 0 have "L div b \<le> j" by simp
  then have "L < (j + 1) * b"
    using assms by (metis Suc_eq_plus1 div_less_iff_less_mult le_imp_less_Suc)
  then have "L < m + b" by (simp add: m_def)
  then have "\<not> int m < int L - int b + 1" by linarith
  with \<open>L div b \<le> j\<close> assms show ?case
    unfolding m_def by (subst py_range.simps) simp
next
  case (Suc n)
  define m where "m = j * b"
  from Suc have lt: "j < L div b" by simp
  then have "(j + 1) * b \<le> L"
    using assms by (metis Suc_eq_plus1 Suc_leI less_eq_div_iff_mult_less_eq)
  then have "m + b \<le> L" by (simp add: m_def)
  then have "int m < int L - int b + 1" using assms by linarith
  moreover have "int m + int b = int (Suc j * b)"
    by (simp add: m_def)
  moreover have "n = L div b - Suc j" using Suc by simp
  ultimately show ?case
    using assms lt Suc.hyps(1)[of "Suc j"]
    unfolding m_def by (subst py_range.simps) (simp add: upt_conv_Cons add.commute)
qed

lemma py_slice_window:
  "0 \<le> i \<Longrightarrow> 0 \<le> B \<Longrightarrow> py_slice xs i (i + B) = take (nat B) (drop (nat i) xs)"
  by (auto simp: py_slice_def slice_bound_def Let_def min_def nat_add_distrib)

lemma chunk_tokens_eq:
  assumes "0 < B"
  shows "chunk_tokens toks B =
    Inr (map (\<lambda>k. take (nat B) (drop (k * nat B) toks)) [0..<length toks div nat B])"
proof -
  have b: "0 < nat B" "int (nat B) = B" using assms by simp_all
  have "py_range 0 (int (length toks) - B + 1) B =
        map (\<lambda>k. int (k * nat B)) [0..<length toks div nat B]"
    using py_range_chunks[OF b(1), of 0 "length toks"] b(2) by simp
  moreover have "py_slice toks (int (k * nat B)) (int (k * nat B) + B) =
      take (nat B) (drop (k * nat B) toks)" for k
    using py_slice_window[of "int (k * nat B)" B toks] assms by (simp add: nat_mult_distrib)
  ultimately show ?thesis
    using assms by (simp add: chunk_tokens_def comp_def)
qed

lemma concat_windows:
  "n * b \<le> length xs \<Longrightarrow>
   concat (map (\<lambda>k. take b (drop (k * b) xs)) [0..<n]) = take (n * b) xs"
proof (induction n)
  case 0
  then show ?case by simp
next
  case (Suc n)
  then have "concat (map (\<lambda>k. take b (drop (k * b) xs)) [0..<n]) = take (n * b) xs"
    by simp
  moreover have "Suc n * b = n * b + b" by simp
  then have "take (Suc n * b) xs = take (n * b) xs @ take b (drop (n * b) xs)"
    by (simp only: take_add)
  ultimately show ?case
    by simp
qed

lemma chunking_facts:
  assumes "0 < B"
  shows "\<exists>chunks.
     chunk_tokens toks B = Inr chunks \<and>
     int (length chunks) = int (length toks) div B \<and>
     (\<forall>k < length chunks.
        chunks ! k = take (nat B) (drop (k * nat B) toks) \<and> length (chunks ! k) = nat B) \<and>
     concat chunks = take (length chunks * nat B) toks \<and>
     length toks - length chunks * nat B < nat B"
proof -
  let ?n = "length toks div nat B"
  let ?cs = "map (\<lambda>k. take (nat B) (drop (k * nat B) toks)) [0..<?n]"
  have b: "0 < nat B" using assms by simp
  have le: "?n * nat B \<le> length toks" by simp
  have 1: "chunk_tokens toks B = Inr ?cs" using assms by (rule chunk_tokens_eq)
  have 2: "int (length ?cs) = int (length toks) div B"
    using assms by (simp add: zdiv_int)
  have 3: "?cs ! k = take (nat B) (drop (k * nat B) toks) \<and> length (?cs ! k) = nat B"
    if "k < length ?cs" for k
  proof -
    from that have "Suc k \<le> ?n" by simp
    then have "Suc k * nat B \<le> ?n * nat B" by (rule mult_le_mono1)
    have "k * nat B + nat B = Suc k * nat B" by simp
    also note \<open>Suc k * nat B \<le> ?n * nat B\<close>
    also note le
    finally have "k * nat B + nat B \<le> length toks" .
    with that show ?thesis by simp
  qed
  have 4: "concat ?cs = take (length ?cs * nat B) toks"
    using concat_windows[OF le] by simp
  have 5: "length toks - length ?cs * nat B < nat B"
    using b by (simp add: minus_div_mult_eq_mod)
  from 1 2 3 4 5 show ?thesis by blast
qed

lemma encode_chunked_file_ok:
  assumes "files w p = Some bytes" and "utf8_decode bytes = Inr raw"
    and "chunk_tokens (convert_tokens_to_ids tok (tokenize tok (universal_newlines raw)))
           (bsize0 - (max_len tok - max_len_single_sentence tok)) = Inr chunks"
  shows "\<exists>w1. encode_chunked_file tok (Some p) bsize0 w =
           (Inr \<lparr>examples = map (build_inputs_with_special_tokens tok) chunks,
                 str_suffix = ''from file at '' @ p @ ''.''\<rparr>, w1)"
  using assms by (simp add: encode_chunked_file_def isfile_def open_text_def Let_def)

lemma init_after_populate:
  assumes "populate L c w = (Inr self, w1)"
    and "truthy (texts c) \<or> truthy (file_path c)" and "from_cache c \<or> tokenizer c \<noteq> None"
  shows "(\<not> save_cache c \<longrightarrow> fst (init L c w) = Inr self) \<and>
         (\<forall>s w'. init L c w = (Inr s, w') \<longrightarrow> s = self)"
  using assms by (auto simp: init_def Let_def split: prod.splits sum.splits)

text \<open>
  Claim C1, for an effective block size \<open>B\<close> of at least one. The constructor on a raw
  text file tokenizes the whole text to \<open>toks\<close> and fills \<open>examples\<close> with the chunks
  \<open>toks[k * B : k * B + B]\<close> for \<open>k\<close> below \<open>len(toks) // B\<close>, each wrapped by the
  tokenizer: there are exactly \<open>len(toks) // B\<close> chunks, each of length \<open>B\<close>, together the
  first \<open>len(toks) // B * B\<close> tokens in order, and fewer than \<open>B\<close> tokens are left out at
  the end. The construction succeeds when no cache is saved, and whenever it succeeds
  its dataset is this one.
\<close>

theorem chunked_construction:
  assumes "\<not> from_cache c" and "texts c = None" and "line_by_line c \<noteq> Some True"
    and "tokenizer c = Some tok" and "file_path c = Some p" and "p \<noteq> []"
    and "files w p = Some bytes" and "utf8_decode bytes = Inr raw"
    and "toks = convert_tokens_to_ids tok (tokenize tok (universal_newlines raw))"
    and "B = block_size c - (max_len tok - max_len_single_sentence tok)"
    and "0 < B"
  shows "\<exists>self w1 chunks.
     populate L c w = (Inr self, w1) \<and>
     (\<not> save_cache c \<longrightarrow> fst (init L c w) = Inr self) \<and>
     (\<forall>s w'. init L c w = (Inr s, w') \<longrightarrow> s = self) \<and>
     examples self = map (build_inputs_with_special_tokens tok) chunks \<and>
     chunk_tokens toks B = Inr chunks \<and>
     int (length chunks) = int (length toks) div B \<and>
     (\<forall>k < length chunks.
        chunks ! k = take (nat B) (drop (k * nat B) toks) \<and> length (chunks ! k) = nat B) \<and>
     concat chunks = take (length chunks * nat B) toks \<and>
     length toks - length chunks * nat B < nat B"
proof -
  from chunking_facts [OF \<open>0 < B\<close>, of toks] obtain chunks where
    ch: "chunk_tokens toks B = Inr chunks"
      "int (length chunks) = int (length toks) div B"
      "\<forall>k < length chunks.
         chunks ! k = take (nat B) (drop (k * nat B) toks) \<and> length (chunks ! k) = nat B"
      "concat chunks = take (length chunks * nat B) toks"
      "length toks - length chunks * nat B < nat B"
    by blast
  from encode_chunked_file_ok [OF assms(7,8), of tok "block_size c" chunks] ch(1) assms(9,10)
  obtain w1 where
    "encode_chunked_file tok (Some p) (block_size c) w =
       (Inr \<lparr>examples = map (build_inputs_with_special_tokens tok) chunks,
             str_suffix = ''from file at '' @ p @ ''.''\<rparr>, w1)"
    by auto
  with assms(1-5) have pop: "populate L c w =
       (Inr \<lparr>examples = map (build_inputs_with_special_tokens tok) chunks,
             str_suffix = ''from file at '' @ p @ ''.''\<rparr>, w1)"
    by (simp add: populate_def)
  from init_after_populate [OF pop] assms(4,5,6)
  have ini: "(\<not> save_cache c \<longrightarrow> fst (init L c w) =
           Inr \<lparr>examples = map (build_inputs_with_special_tokens tok) chunks,
                str_suffix = ''from file at '' @ p @ ''.''\<rparr>) \<and>
        (\<forall>s w'. init L c w = (Inr s, w') \<longrightarrow>
           s = \<lparr>examples = map (build_inputs_with_special_tokens tok) chunks,
                str_suffix = ''from file at '' @ p @ ''.''\<rparr>)"
    by simp
  have ex: "examples \<lparr>examples = map (build_inputs_with_special_tokens tok) chunks,
                str_suffix = ''from file at '' @ p @ ''.''\<rparr> =
            map (build_inputs_with_special_tokens tok) chunks"
    by simp
  from pop ini ex ch show ?thesis
    by blast
qed

text \<open>
  The claim at \<open>corpus.txt\<close>, seven tokens, with \<open>block_size = 5\<close>: the tokenizer reserves
  two tokens, \<open>B = 3\<close>, and there are two chunks.
\<close>

theorem chunked_construction_witness:
  "\<exists>self w1 chunks.
     populate msgpack_libraries (chunk_config\<lparr>block_size := 5\<rparr>) sample_world = (Inr self, w1) \<and>
     fst (init msgpack_libraries (chunk_config\<lparr>block_size := 5\<rparr>) sample_world) = Inr self \<and>
     examples self = [[1, 0x61, 0x62, 0x63, 2], [1, 0x64, 0x65, 0x66, 2]] \<and>
     chunk_tokens [0x61, 0x62, 0x63, 0x64, 0x65, 0x66, 0x67] 3 = Inr chunks \<and>
     chunks = [[0x61, 0x62, 0x63], [0x64, 0x65, 0x66]] \<and>
     int (length chunks) = int (length [0x61, 0x62, 0x63, 0x64, 0x65, 0x66, 0x67 :: int]) div 3"
proof -
  have ch: "chunk_tokens [0x61, 0x62, 0x63, 0x64, 0x65, 0x66, 0x67] 3 =
      Inr [[0x61, 0x62, 0x63], [0x64, 0x65, 0x66]]"
    by code_simp
  have dec: "utf8_decode [0x61, 0x62, 0x63, 0x64, 0x65, 0x66, 0x67] =
      Inr [0x61, 0x62, 0x63, 0x64, 0x65, 0x66, 0x67]"
    by code_simp
  from chunked_construction
    [where c = "chunk_config\<lparr>block_size := 5\<rparr>" and tok = char_tokenizer
       and p = "''corpus.txt''" and w = sample_world and L = msgpack_libraries
       and bytes = "[0x61, 0x62, 0x63, 0x64, 0x65, 0x66, 0x67]"
       and raw = "[0x61, 0x62, 0x63, 0x64, 0x65, 0x66, 0x67]"
       and toks = "[0x61, 0x62, 0x63, 0x64, 0x65, 0x66, 0x67]" and B = 3]
  obtain self w1 chunks where
    "populate msgpack_libraries (chunk_config\<lparr>block_size := 5\<rparr>) sample_world = (Inr self, w1)"
    "fst (init msgpack_libraries (chunk_config\<lparr>block_size := 5\<rparr>) sample_world) = Inr self"
    "examples self = map (build_inputs_with_special_tokens char_tokenizer) chunks"
    "chunk_tokens [0x61, 0x62, 0x63, 0x64, 0x65, 0x66, 0x67] 3 = Inr chunks"
    "int (length chunks) = int (length [0x61, 0x62, 0x63, 0x64, 0x65, 0x66, 0x67 :: int]) div 3"
    using dec
    by (auto simp: chunk_config_def default_config_def sample_world_def char_tokenizer_def)
  with ch show ?thesis
    by (auto simp: char_tokenizer_def)
qed

text \<open>
  Claim C1 as it is stated has no bound on \<open>B\<close>. With \<open>block_size = 1\<close> the same
  tokenizer gives \<open>B = -1\<close>: the range is empty and the dataset has no example, where
  \<open>7 // -1 = -7\<close>. With \<open>block_size = 2\<close>, \<open>B = 0\<close> and \<open>range\<close> raises \<open>ValueError\<close>.
\<close>

theorem chunking_nonpositive_block:
  "chunk_tokens [0x61, 0x62, 0x63, 0x64, 0x65, 0x66, 0x67] (1 - (512 - 510)) = Inr [] \<and>
   int (length [0x61, 0x62, 0x63, 0x64, 0x65, 0x66, 0x67 :: int]) div (1 - (512 - 510)) = - 7 \<and>
   fst (init msgpack_libraries (chunk_config\<lparr>block_size := 1\<rparr>) sample_world) =
     Inr \<lparr>examples = [], str_suffix = ''from file at corpus.txt.''\<rparr> \<and>
   fst (init msgpack_libraries (chunk_config\<lparr>block_size := 2\<rparr>) sample_world) = Inl ValueError"
  by code_simp

section \<open>Reading lines\<close>

lemma readline_line:
  "0x0A \<notin> set l \<Longrightarrow> readline (l @ 0x0A # rest) = (l @ [0x0A], rest)"
  by (induction l) auto

lemma readline_no_newline: "0x0A \<notin> set l \<Longrightarrow> readline l = (l, [])"
  by (induction l) auto

lemma set_readline_rest: "set (snd (readline s)) \<subseteq> set s"
  by (induction s) (auto split: prod.splits)

lemma no_cr_universal_newlines: "0x0D \<notin> set (universal_newlines s)"
  by (induction s rule: universal_newlines.induct) (auto split: list.splits)

lemma no_cr_after_header: "0x0D \<notin> set (after_header h (universal_newlines s))"
  using set_readline_rest[of "universal_newlines s"] no_cr_universal_newlines[of s]
  by (auto simp: after_header_def)

lemma split_at_not_Nil: "split_at sep s \<noteq> []"
  by (induction s) (auto split: list.splits)

lemma filter_splitlines_from:
  assumes "\<not> Q []"
  shows "0x0D \<notin> set s \<Longrightarrow>
    filter Q (splitlines_from cur s) =
    filter Q ((cur @ hd (split_at is_linebreak s)) # tl (split_at is_linebreak s))"
proof (induction s arbitrary: cur)
  case Nil
  with assms show ?case by simp
next
  case (Cons c cs)
  then have c: "c \<noteq> 0x0D" and cs: "0x0D \<notin> set cs" by auto
  obtain l ls where sp: "split_at is_linebreak cs = l # ls"
    using split_at_not_Nil[of is_linebreak cs] by (cases "split_at is_linebreak cs") auto
  show ?case
  proof (cases "is_linebreak c")
    case True
    with c sp Cons.IH[OF cs, of "[]"] show ?thesis by simp
  next
    case False
    with c sp Cons.IH[OF cs, of "cur @ [c]"] show ?thesis by simp
  qed
qed

lemma filter_splitlines:
  "\<not> Q [] \<Longrightarrow> 0x0D \<notin> set s \<Longrightarrow>
   filter Q (splitlines s) = filter Q (split_at is_linebreak s)"
  using filter_splitlines_from[of Q s "[]"] split_at_not_Nil[of is_linebreak s]
  by (simp add: splitlines_def)

lemma kept_line_nonblank: "(\<lambda>line. 0 < length line \<and> \<not> isspace line) = nonblank"
  by (auto simp: fun_eq_iff isspace_def nonblank_def)

lemma split_at_cong:
  "(\<And>c. c \<in> set s \<Longrightarrow> P c = Q c) \<Longrightarrow> split_at P s = split_at Q s"
  by (induction s) auto

lemma read_lines_from_file_text:
  assumes "files w path = Some bytes" and "utf8_decode bytes = Inr raw"
  shows "fst (read_lines_from_file L path hdr w) =
    (if endswith path ''.csv''
     then csv_reader_strs L (after_header hdr (universal_newlines raw))
     else Inr (filter (\<lambda>line. 0 < length line \<and> \<not> isspace line)
                 (splitlines (after_header hdr (universal_newlines raw)))))"
  using assms by (simp add: read_lines_from_file_def open_text_def Let_def)

text \<open>
  Claim C6. With \<open>header\<close> true the helper reads one line, up to the first newline of
  the text, and drops it: what it returns is what the CSV reader, or the line filter,
  makes of the text after that line, whatever the line holds; a text without a newline
  is dropped whole. With \<open>header\<close> false the whole text is processed.
\<close>

theorem header_line_discarded:
  assumes "files w path = Some bytes" and "utf8_decode bytes = Inr raw"
  shows
    "(universal_newlines raw = first @ 0x0A # rest \<and> 0x0A \<notin> set first \<longrightarrow>
        fst (read_lines_from_file L path True w) =
          (if endswith path ''.csv'' then csv_reader_strs L rest
           else Inr (filter (\<lambda>line. 0 < length line \<and> \<not> isspace line) (splitlines rest)))) \<and>
     (0x0A \<notin> set (universal_newlines raw) \<longrightarrow>
        fst (read_lines_from_file L path True w) =
          (if endswith path ''.csv'' then csv_reader_strs L [] else Inr [])) \<and>
     fst (read_lines_from_file L path False w) =
       (if endswith path ''.csv'' then csv_reader_strs L (universal_newlines raw)
        else Inr (filter (\<lambda>line. 0 < length line \<and> \<not> isspace line)
                    (splitlines (universal_newlines raw))))"
  using read_lines_from_file_text[OF assms]
  by (auto simp: after_header_def readline_line readline_no_newline splitlines_def)

text \<open>
  The claim at \<open>lines.txt\<close>: the line \<open>title\<close> is returned without the header flag and
  not with it.
\<close>

theorem header_line_discarded_witness:
  "fst (read_lines_from_file msgpack_libraries ''lines.txt'' True sample_world) =
     Inr [[0x61, 0x62], [0x63, 0x64]] \<and>
   fst (read_lines_from_file msgpack_libraries ''lines.txt'' False sample_world) =
     Inr [[0x74, 0x69, 0x74, 0x6C, 0x65], [0x61, 0x62], [0x63, 0x64]]"
proof -
  have dec: "utf8_decode
      [0x74, 0x69, 0x74, 0x6C, 0x65, 0x0A, 0x61, 0x62, 0x0A, 0x20, 0x0A, 0x0A, 0x63, 0x64, 0x0A] =
      Inr [0x74, 0x69, 0x74, 0x6C, 0x65, 0x0A, 0x61, 0x62, 0x0A, 0x20, 0x0A, 0x0A, 0x63, 0x64, 0x0A]"
    by (simp add: cons_result_def)
  have fl: "files sample_world ''lines.txt'' = Some
      [0x74, 0x69, 0x74, 0x6C, 0x65, 0x0A, 0x61, 0x62, 0x0A, 0x20, 0x0A, 0x0A, 0x63, 0x64, 0x0A]"
    by (simp add: sample_world_def)
  from header_line_discarded [OF fl dec, of "[0x74, 0x69, 0x74, 0x6C, 0x65]"
         "[0x61, 0x62, 0x0A, 0x20, 0x0A, 0x0A, 0x63, 0x64, 0x0A]" msgpack_libraries]
  show ?thesis
    by (simp add: endswith_def splitlines_def is_linebreak_def isspace_def is_whitespace_def)
qed

text \<open>
  What the helper returns for a path that does not end in \<open>.csv\<close>: in order, the pieces
  of the text after the header line, split at every line boundary of \<open>str.splitlines\<close>,
  that are neither empty nor all whitespace. Where LF is the only line boundary in the
  text, these are the newline-split lines that are neither empty nor all whitespace.
\<close>

lemma plain_file_lines:
  assumes "\<not> endswith path ''.csv''" and "files w path = Some bytes"
    and "utf8_decode bytes = Inr raw"
  shows
    "fst (read_lines_from_file L path hdr w) =
       Inr (filter nonblank
              (split_at is_linebreak (after_header hdr (universal_newlines raw)))) \<and>
     ((\<forall>c \<in> set (universal_newlines raw). is_linebreak c \<longrightarrow> c = 0x0A) \<longrightarrow>
        fst (read_lines_from_file L path hdr w) =
          Inr (filter nonblank (newline_split (after_header hdr (universal_newlines raw)))))"
proof -
  let ?rest = "after_header hdr (universal_newlines raw)"
  have 1: "fst (read_lines_from_file L path hdr w) =
      Inr (filter nonblank (split_at is_linebreak ?rest))"
    using read_lines_from_file_text[OF assms(2,3), of L hdr, unfolded kept_line_nonblank]
      assms(1) filter_splitlines[of nonblank ?rest] no_cr_after_header[of hdr raw]
    by (simp add: nonblank_def)
  have 2: "split_at is_linebreak ?rest = newline_split ?rest"
    if "\<forall>c \<in> set (universal_newlines raw). is_linebreak c \<longrightarrow> c = 0x0A"
  proof -
    have "set ?rest \<subseteq> set (universal_newlines raw)"
      using set_readline_rest[of "universal_newlines raw"] by (auto simp: after_header_def)
    with that have "\<And>c. c \<in> set ?rest \<Longrightarrow> is_linebreak c = (c = 0x0A)"
      by (auto simp: is_linebreak_def)
    then show ?thesis
      unfolding newline_split_def by (rule split_at_cong)
  qed
  from 1 2 show ?thesis by simp
qed

text \<open>
  At \<open>lines.txt\<close>, without and with the header flag: the blank line and the empty line
  are dropped and the other lines are kept in order.
\<close>

lemma plain_file_lines_at_lines_txt:
  "fst (read_lines_from_file msgpack_libraries ''lines.txt'' False sample_world) =
     Inr [[0x74, 0x69, 0x74, 0x6C, 0x65], [0x61, 0x62], [0x63, 0x64]] \<and>
   filter nonblank (newline_split
     [0x74, 0x69, 0x74, 0x6C, 0x65, 0x0A, 0x61, 0x62, 0x0A, 0x20, 0x0A, 0x0A, 0x63, 0x64, 0x0A]) =
     [[0x74, 0x69, 0x74, 0x6C, 0x65], [0x61, 0x62], [0x63, 0x64]] \<and>
   fst (read_lines_from_file msgpack_libraries ''lines.txt'' True sample_world) =
     Inr [[0x61, 0x62], [0x63, 0x64]]"
proof -
  have dec: "utf8_decode
      [0x74, 0x69, 0x74, 0x6C, 0x65, 0x0A, 0x61, 0x62, 0x0A, 0x20, 0x0A, 0x0A, 0x63, 0x64, 0x0A] =
      Inr [0x74, 0x69, 0x74, 0x6C, 0x65, 0x0A, 0x61, 0x62, 0x0A, 0x20, 0x0A, 0x0A, 0x63, 0x64, 0x0A]"
    by (simp add: cons_result_def)
  have fl: "files sample_world ''lines.txt'' = Some
      [0x74, 0x69, 0x74, 0x6C, 0x65, 0x0A, 0x61, 0x62, 0x0A, 0x20, 0x0A, 0x0A, 0x63, 0x64, 0x0A]"
    by (simp add: sample_world_def)
  have csv: "\<not> endswith ''lines.txt'' ''.csv''"
    by (simp add: endswith_def)
  from plain_file_lines [OF csv fl dec, of msgpack_libraries False]
    plain_file_lines [OF csv fl dec, of msgpack_libraries True]
  show ?thesis
    by (simp add: after_header_def newline_split_def is_linebreak_def nonblank_def
          is_whitespace_def)
qed

text \<open>
  A form feed in the first line: the header flag drops the line up to the newline, which
  without the flag is returned as two lines.
\<close>

lemma form_feed_in_header_line:
  "fst (read_lines_from_file msgpack_libraries ''headed.txt'' False sample_world) =
     Inr [[0x68], [0x78], [0x61]] \<and>
   fst (read_lines_from_file msgpack_libraries ''headed.txt'' True sample_world) = Inr [[0x61]]"
  by (simp add: read_lines_from_file_def open_text_def sample_world_def cons_result_def
        after_header_def endswith_def splitlines_def is_linebreak_def isspace_def
        is_whitespace_def)

text \<open>
  Claim C7: for a file that is not CSV the helper returns the newline-split lines that
  are neither empty nor all whitespace, in order. The code does not at \<open>formfeed.txt\<close>:
  its one newline-split line \<open>a\<close> FF \<open>b\<close> is returned as the two lines \<open>a\<close> and \<open>b\<close>, because
  \<open>str.splitlines\<close> also breaks a line at a form feed.
\<close>

theorem form_feed_splits_line:
  "fst (read_lines_from_file msgpack_libraries ''formfeed.txt'' False sample_world) =
     Inr [[0x61], [0x62]] \<and>
   filter nonblank (newline_split [0x61, 0x0C, 0x62, 0x0A]) = [[0x61, 0x0C, 0x62]]"
  by (simp add: read_lines_from_file_def open_text_def sample_world_def cons_result_def
        after_header_def endswith_def splitlines_def is_linebreak_def isspace_def
        is_whitespace_def newline_split_def nonblank_def)

section \<open>The message-pack codec\<close>

text \<open>
  Whatever the codec of the last sections packs, it unpacks to the same value, and it
  packs every value of 64-bit integers.
\<close>

lemma length_be_bytes [simp]: "length (be_bytes k n) = k"
  by (simp add: be_bytes_def)

lemma be_bytes_Suc: "be_bytes (Suc k) n = of_nat (n div 256 ^ k) # be_bytes k n"
  by (simp add: be_bytes_def)

lemma foldl_be: "foldl (\<lambda>a b. a * 256 + unat b) a bs =
     a * 256 ^ length bs + foldl (\<lambda>a b. a * 256 + unat b) 0 (bs :: byte list)"
proof (induction bs arbitrary: a)
  case Nil
  then show ?case by simp
next
  case (Cons b bs)
  show ?case
    using Cons[of "a * 256 + unat b"] Cons[of "unat b"]
    by (simp add: algebra_simps)
qed

lemma be_value_Cons: "be_value (b # bs) = unat b * 256 ^ length bs + be_value bs"
  using foldl_be[of "unat b" bs] by (simp add: be_value_def)

lemma be_value_be_bytes: "be_value (be_bytes k n) = n mod 256 ^ k"
proof (induction k)
  case 0
  then show ?case by (simp add: be_bytes_def be_value_def)
next
  case (Suc k)
  have "unat (of_nat (n div 256 ^ k) :: byte) = n div 256 ^ k mod 256"
    by (simp add: unat_of_nat)
  moreover have "n mod 256 ^ Suc k = n mod (256 ^ k * 256)"
    by (simp add: mult.commute)
  then have "n mod 256 ^ Suc k = 256 ^ k * (n div 256 ^ k mod 256) + n mod 256 ^ k"
    by (simp only: mod_mult2_eq)
  ultimately show ?case
    using Suc by (simp only: be_bytes_Suc be_value_Cons length_be_bytes) (simp add: mult.commute)
qed

lemma mp_take_append: "length x = k \<Longrightarrow> mp_take k (x @ r) = Inr (x, r)"
  by (simp add: mp_take_def)

lemma mp_unsigned_be:
  "n < 256 ^ k \<Longrightarrow> mp_unsigned k (be_bytes k n @ r) = Inr (int n, r)"
  by (simp add: mp_unsigned_def mp_take_append be_value_be_bytes)

lemma mp_signed_be:
  assumes "0 < k" and "- (2 ^ (8 * k - 1)) \<le> n" and "n < 0"
  shows "mp_signed k (be_bytes k (nat (n + 2 ^ (8 * k))) @ r) = Inr (n, r)"
proof -
  have p: "(256::int) ^ k = 2 ^ (8 * k)"
    by (simp add: power_mult)
  have q: "(2::int) ^ (8 * k) = 2 * 2 ^ (8 * k - 1)"
    using assms(1) by (metis Suc_pred' mult_pos_pos power_Suc zero_less_numeral)
  have z: "(0::int) < 2 ^ (8 * k - 1)" by simp
  have pos: "0 \<le> n + 2 ^ (8 * k)" using assms(2) q z by linarith
  have lt: "n + 2 ^ (8 * k) < 2 ^ (8 * k)" using assms(3) by simp
  have "int (nat (n + 2 ^ (8 * k)) mod 256 ^ k) = (n + 2 ^ (8 * k)) mod 2 ^ (8 * k)"
    using pos by (simp add: zmod_int p)
  also have "\<dots> = n + 2 ^ (8 * k)"
    using pos lt by (rule mod_pos_pos_trivial)
  finally have v: "int (be_value (be_bytes k (nat (n + 2 ^ (8 * k))))) = n + 2 ^ (8 * k)"
    by (simp add: be_value_be_bytes)
  have "2 ^ (8 * k - 1) \<le> n + 2 ^ (8 * k)" using assms(2) q z by linarith
  with v have "(2::int) ^ (8 * k - 1) \<le> int (be_value (be_bytes k (nat (n + 2 ^ (8 * k)))))"
    by simp
  then have "(2::nat) ^ (8 * k - 1) \<le> be_value (be_bytes k (nat (n + 2 ^ (8 * k))))"
    by simp
  with v show ?thesis
    by (simp add: mp_signed_def mp_take_append Let_def)
qed

lemma byte_of_int: "0 \<le> n \<Longrightarrow> n < 256 \<Longrightarrow> uint (of_int n :: byte) = n"
  by (simp add: uint_word_of_int)

lemma byte_of_neg: "- 128 \<le> n \<Longrightarrow> n < 0 \<Longrightarrow> uint (of_int n :: byte) = n + 256"
proof -
  assume a: "- 128 \<le> n" "n < 0"
  have "uint (of_int n :: byte) = n mod 256" by (simp add: uint_word_of_int)
  also have "\<dots> = (n + 256) mod 256" by simp
  also have "\<dots> = n + 256" using a by (intro mod_pos_pos_trivial) auto
  finally show ?thesis .
qed

lemma mp_unpack_int_pack:
  assumes "mp_pack_int n = Inr bs"
  shows "mp_unpack_int (bs @ r) = Inr (n, r)"
proof (cases "0 \<le> n")
  case True
  consider "n < 2 ^ 7" | "2 ^ 7 \<le> n" "n < 2 ^ 8" | "2 ^ 8 \<le> n" "n < 2 ^ 16"
    | "2 ^ 16 \<le> n" "n < 2 ^ 32" | "2 ^ 32 \<le> n" "n < 2 ^ 64" | "2 ^ 64 \<le> n"
    by linarith
  then show ?thesis
  proof cases
    case 1
    with True have u: "uint (of_int n :: byte) = n" by (simp add: byte_of_int)
    with 1 have "(of_int n :: byte) < 0x80" by (simp add: word_less_def)
    with 1 True u assms show ?thesis
      by (auto simp: mp_pack_int_def mp_unpack_int_def)
  next
    case 2
    with True assms have "bs = 0xCC # be_bytes 1 (nat n)" by (simp add: mp_pack_int_def)
    moreover have "nat n < 256 ^ 1" using 2 True by simp
    ultimately show ?thesis
      using mp_unsigned_be[of "nat n" 1 r] True by (simp add: mp_unpack_int_def)
  next
    case 3
    with True assms have "bs = 0xCD # be_bytes 2 (nat n)" by (simp add: mp_pack_int_def)
    moreover have "nat n < 256 ^ 2" using 3 True by simp
    ultimately show ?thesis
      using mp_unsigned_be[of "nat n" 2 r] True by (simp add: mp_unpack_int_def)
  next
    case 4
    with True assms have "bs = 0xCE # be_bytes 4 (nat n)" by (simp add: mp_pack_int_def)
    moreover have "nat n < 256 ^ 4" using 4 True by simp
    ultimately show ?thesis
      using mp_unsigned_be[of "nat n" 4 r] True by (simp add: mp_unpack_int_def)
  next
    case 5
    with True assms have "bs = 0xCF # be_bytes 8 (nat n)" by (simp add: mp_pack_int_def)
    moreover have "nat n < 256 ^ 8" using 5 True by simp
    ultimately show ?thesis
      using mp_unsigned_be[of "nat n" 8 r] True by (simp add: mp_unpack_int_def)
  next
    case 6
    with True assms show ?thesis by (simp add: mp_pack_int_def)
  qed
next
  case False
  then have neg: "n < 0" by simp
  consider "- 32 \<le> n" | "n < - 32" "- (2 ^ 7) \<le> n" | "n < - (2 ^ 7)" "- (2 ^ 15) \<le> n"
    | "n < - (2 ^ 15)" "- (2 ^ 31) \<le> n" | "n < - (2 ^ 31)" "- (2 ^ 63) \<le> n" | "n < - (2 ^ 63)"
    by linarith
  then show ?thesis
  proof cases
    case 1
    with neg have u: "uint (of_int n :: byte) = n + 256" by (simp add: byte_of_neg)
    with 1 have a: "\<not> (of_int n :: byte) < 0x80" "0xE0 \<le> (of_int n :: byte)"
      by (simp_all add: word_less_def word_le_def)
    have "sint (of_int n :: byte) = n"
      using 1 neg by (simp add: sint_sbintrunc' signed_take_bit_int_eq_self)
    with a neg 1 assms show ?thesis
      by (auto simp: mp_pack_int_def mp_unpack_int_def)
  next
    case 2
    with neg assms have "bs = 0xD0 # be_bytes 1 (nat (n + 2 ^ (8 * 1)))"
      by (simp add: mp_pack_int_def)
    then show ?thesis
      using mp_signed_be[of 1 n r] 2 neg by (simp add: mp_unpack_int_def)
  next
    case 3
    with neg assms have "bs = 0xD1 # be_bytes 2 (nat (n + 2 ^ (8 * 2)))"
      by (simp add: mp_pack_int_def)
    then show ?thesis
      using mp_signed_be[of 2 n r] 3 neg by (simp add: mp_unpack_int_def)
  next
    case 4
    with neg assms have "bs = 0xD2 # be_bytes 4 (nat (n + 2 ^ (8 * 4)))"
      by (simp add: mp_pack_int_def)
    then show ?thesis
      using mp_signed_be[of 4 n r] 4 neg by (simp add: mp_unpack_int_def)
  next
    case 5
    with neg assms have "bs = 0xD3 # be_bytes 8 (nat (n + 2 ^ (8 * 8)))"
      by (simp add: mp_pack_int_def)
    then show ?thesis
      using mp_signed_be[of 8 n r] 5 neg by (simp add: mp_unpack_int_def)
  next
    case 6
    with neg assms show ?thesis by (simp add: mp_pack_int_def)
  qed
qed

lemma mp_unpack_array_header_pack:
  assumes "mp_array_header n = Inr h"
  shows "mp_unpack_array_header (h @ r) = Inr (n, r)"
proof -
  consider "n < 16" | "16 \<le> n" "n < 2 ^ 16" | "2 ^ 16 \<le> n" "n < 2 ^ 32" | "2 ^ 32 \<le> n"
    by linarith
  then show ?thesis
  proof cases
    case 1
    then have u: "unat (0x90 + of_nat n :: byte) = 0x90 + n"
      by (simp add: unat_word_ariths unat_of_nat)
    then have "0x90 \<le> (0x90 + of_nat n :: byte)" "(0x90 + of_nat n :: byte) \<le> 0x9F"
      using 1 by (simp_all add: word_le_nat_alt)
    with 1 u assms show ?thesis
      by (auto simp: mp_array_header_def mp_unpack_array_header_def)
  next
    case 2
    with assms have "h = 0xDC # be_bytes 2 n" by (simp add: mp_array_header_def)
    moreover have "n mod 256 ^ 2 = n" using 2 by simp
    ultimately show ?thesis
      by (simp add: mp_unpack_array_header_def mp_take_append be_value_be_bytes)
  next
    case 3
    with assms have "h = 0xDD # be_bytes 4 n" by (simp add: mp_array_header_def)
    moreover have "n mod 256 ^ 4 = n" using 3 by simp
    ultimately show ?thesis
      by (simp add: mp_unpack_array_header_def mp_take_append be_value_be_bytes)
  next
    case 4
    with assms show ?thesis by (simp add: mp_array_header_def)
  qed
qed

lemma mp_unpack_n_concat:
  assumes "\<And>x b r. x \<in> set xs \<Longrightarrow> p x = Inr b \<Longrightarrow> f (b @ r) = Inr (x, r)"
  shows "mp_concat (map p xs) = Inr body \<Longrightarrow>
         mp_unpack_n f (length xs) (body @ r) = Inr (xs, r)"
  using assms
proof (induction xs arbitrary: body)
  case Nil
  then show ?case by simp
next
  case (Cons x xs)
  from Cons.prems(1) obtain b body' where
    b: "p x = Inr b" and body': "mp_concat (map p xs) = Inr body'" and eq: "body = b @ body'"
    by (auto split: sum.splits)
  have "f (b @ body' @ r) = Inr (x, body' @ r)"
    using Cons.prems(2)[of x b "body' @ r"] b by simp
  moreover have "mp_unpack_n f (length xs) (body' @ r) = Inr (xs, r)"
    using Cons.IH[OF body'] Cons.prems(2) by simp
  ultimately show ?case
    by (simp add: eq)
qed

lemma mp_unpack_list_pack:
  assumes "mp_pack_list p xs = Inr bs"
    and "\<And>x b r. x \<in> set xs \<Longrightarrow> p x = Inr b \<Longrightarrow> f (b @ r) = Inr (x, r)"
  shows "mp_unpack_list f (bs @ r) = Inr (xs, r)"
proof -
  from assms(1) obtain h body where
    h: "mp_array_header (length xs) = Inr h" and body: "mp_concat (map p xs) = Inr body"
    and eq: "bs = h @ body"
    by (auto simp: mp_pack_list_def split: sum.splits)
  from mp_unpack_array_header_pack[OF h, of "body @ r"]
    mp_unpack_n_concat[of xs p f body r, OF assms(2) body]
  show ?thesis
    by (simp add: mp_unpack_list_def eq)
qed

lemma mp_unpack_pack:
  assumes "mp_pack ex = Inr bs"
  shows "mp_unpack bs = Inr ex"
proof -
  have inner: "mp_unpack_list mp_unpack_int (b @ r) = Inr (x, r)"
    if "mp_pack_list mp_pack_int x = Inr b" for x b r
    using that by (rule mp_unpack_list_pack) (rule mp_unpack_int_pack)
  have "mp_unpack_list (mp_unpack_list mp_unpack_int) (bs @ []) = Inr (ex, [])"
    using assms unfolding mp_pack_def by (rule mp_unpack_list_pack) (rule inner)
  then show ?thesis by (simp add: mp_unpack_def)
qed

lemma mp_pack_int_fits: "- (2 ^ 63) \<le> n \<Longrightarrow> n < 2 ^ 64 \<Longrightarrow> \<exists>bs. mp_pack_int n = Inr bs"
  by (simp add: mp_pack_int_def)

lemma mp_concat_ok:
  "(\<And>x. x \<in> set xs \<Longrightarrow> \<exists>b. p x = Inr b) \<Longrightarrow> \<exists>body. mp_concat (map p xs) = Inr body"
proof (induction xs)
  case Nil
  then show ?case by simp
next
  case (Cons x xs)
  then obtain b body where "p x = Inr b" "mp_concat (map p xs) = Inr body"
    by (meson list.set_intros)
  then show ?case by simp
qed

lemma mp_pack_list_ok:
  assumes "length xs < 2 ^ 32" and "\<And>x. x \<in> set xs \<Longrightarrow> \<exists>b. p x = Inr b"
  shows "\<exists>bs. mp_pack_list p xs = Inr bs"
proof -
  from assms(1) have "\<exists>h. mp_array_header (length xs) = Inr h"
    by (simp add: mp_array_header_def)
  then obtain h where "mp_array_header (length xs) = Inr h" ..
  moreover from mp_concat_ok[of xs p] assms(2) obtain body where
    "mp_concat (map p xs) = Inr body" by blast
  ultimately show ?thesis by (simp add: mp_pack_list_def)
qed

lemma mp_pack_ok:
  assumes "packable ex"
  shows "\<exists>bs. mp_pack ex = Inr bs"
proof -
  have inner: "\<exists>b. mp_pack_list mp_pack_int x = Inr b" if "x \<in> set ex" for x
  proof -
    from that assms have l: "length x < 2 ^ 32"
      and n: "\<And>n. n \<in> set x \<Longrightarrow> - (2 ^ 63) \<le> n \<and> n < 2 ^ 64"
      by (auto simp: packable_def list_all_iff)
    show ?thesis
      using l by (rule mp_pack_list_ok) (use n mp_pack_int_fits in blast)
  qed
  have len: "length ex < 2 ^ 32" using assms by (simp add: packable_def)
  show ?thesis
    unfolding mp_pack_def using len by (rule mp_pack_list_ok) (rule inner)
qed

section \<open>Saving and loading the cache\<close>

lemma save_writes:
  assumes "examples self \<noteq> []" and "can_write w dest"
    and "msgpack_pack L (examples self) = Inr bs"
  shows "save L self (Some dest) w =
    (Inr (),
     write_bytes dest bs
       (emit [Opened dest WriteBinary]
          ((emit [LoggedCachingDatasetTo (Some dest)] w)
             \<lparr>files := (files (emit [LoggedCachingDatasetTo (Some dest)] w))(dest \<mapsto> [])\<rparr>)))"
  using assms by (simp add: save_def open_wb_def can_write_def emit_def Let_def)

lemma save_not_writable:
  assumes "examples self \<noteq> []" and "dest \<noteq> []" and "write_error w dest = Some e"
  shows "fst (save L self (Some dest) w) = Inl e"
    and "files (snd (save L self (Some dest) w)) = files w"
  using assms by (simp_all add: save_def open_wb_def emit_def Let_def)

lemma save_not_packable:
  assumes "examples self \<noteq> []" and "can_write w dest"
    and "msgpack_pack L (examples self) = Inl e"
  shows "fst (save L self (Some dest) w) = Inl e"
    and "files (snd (save L self (Some dest) w)) dest = Some []"
  using assms by (simp_all add: save_def open_wb_def can_write_def emit_def Let_def)

lemma init_from_cache:
  assumes "from_cache c" and "file_path c = Some p" and "p \<noteq> []" and "\<not> save_cache c"
    and "files w p = Some bs" and "msgpack_unpack L bs = Inr ex"
  shows "\<exists>w'. init L c w = (Inr \<lparr>examples = ex, str_suffix = ''via cache.''\<rparr>, w')"
  using assms by (simp add: init_def populate_def load_cache_def open_rb_def Let_def)

text \<open>
  Claim C2, within what the cache format holds. With the message-pack codec, for a
  dataset with at least one example, of integers that fit in 64 bits in sequences of
  fewer than \<open>2 ^ 32\<close> elements, and a destination that can be opened for writing, \<open>save\<close>
  succeeds and leaves the packed examples at the destination, and the constructor with
  \<open>from_cache\<close> on that path succeeds with equal examples: the same length, the same
  nested integers, the same order.
\<close>

theorem save_then_load:
  assumes "msgpack_pack L = mp_pack" and "msgpack_unpack L = mp_unpack"
    and "examples self \<noteq> []" and "packable (examples self)" and "can_write w dest"
    and "from_cache c" and "file_path c = Some dest" and "\<not> save_cache c"
  shows "\<exists>bs w1 loaded w2.
     save L self (Some dest) w = (Inr (), w1) \<and>
     files w1 dest = Some bs \<and>
     init L c w1 = (Inr loaded, w2) \<and>
     examples loaded = examples self \<and>
     len loaded = len self"
proof -
  from mp_pack_ok[OF assms(4)] obtain bs where p: "mp_pack (examples self) = Inr bs"
    by blast
  then have u: "mp_unpack bs = Inr (examples self)" by (rule mp_unpack_pack)
  from p assms(1) have p': "msgpack_pack L (examples self) = Inr bs" by simp
  from u assms(2) have u': "msgpack_unpack L bs = Inr (examples self)" by simp
  from assms(5) have ne: "dest \<noteq> []" by (simp add: can_write_def)
  obtain w1 where s: "save L self (Some dest) w = (Inr (), w1)"
    and f: "files w1 dest = Some bs"
    using save_writes[OF assms(3,5) p'] by (simp add: write_bytes_def)
  from init_from_cache[OF assms(6,7) ne assms(8) f u']
  obtain w2 where "init L c w1 = (Inr \<lparr>examples = examples self, str_suffix = ''via cache.''\<rparr>, w2)"
    by blast
  with s f show ?thesis
    by (auto simp: len_def)
qed

text \<open>
  The claim at the two examples \<open>[[1, 10, 20, 2], [1, 30, 2]]\<close>, which the codec packs
  to ten bytes.
\<close>

theorem save_then_load_witness:
  "\<exists>bs w1 loaded w2.
     save msgpack_libraries
       \<lparr>examples = [[1, 10, 20, 2], [1, 30, 2]], str_suffix = ''via application.''\<rparr>
       (Some ''model_cache.msgpack'') sample_world = (Inr (), w1) \<and>
     files w1 ''model_cache.msgpack'' = Some bs \<and>
     init msgpack_libraries
       (default_config\<lparr>file_path := Some ''model_cache.msgpack'', from_cache := True\<rparr>) w1 =
       (Inr loaded, w2) \<and>
     examples loaded = [[1, 10, 20, 2], [1, 30, 2]] \<and>
     len loaded = 2"
proof -
  have "packable [[1, 10, 20, 2], [1, 30, 2]]"
    by (simp add: packable_def)
  moreover have "can_write sample_world ''model_cache.msgpack''"
    by (simp add: can_write_def sample_world_def)
  ultimately show ?thesis
    using save_then_load
      [where self = "\<lparr>examples = [[1, 10, 20, 2], [1, 30, 2]],
                      str_suffix = ''via application.''\<rparr>"
         and dest = "''model_cache.msgpack''" and L = msgpack_libraries
         and c = "default_config\<lparr>file_path := Some ''model_cache.msgpack'', from_cache := True\<rparr>"
         and w = sample_world]
    by (auto simp: msgpack_libraries_def default_config_def len_def)
qed

text \<open>
  Claim C2 as it is stated covers every non-negative integer and every destination.
  At the example \<open>[[2 ^ 64]]\<close> the codec raises \<open>OverflowError\<close>: \<open>save\<close> fails and leaves the
  cache that was at the destination empty. At a destination under a directory that does
  not exist, \<open>open\<close> raises \<open>FileNotFoundError\<close> and \<open>save\<close> fails.
\<close>

theorem save_rejects_large_integer:
  "fst (save msgpack_libraries \<lparr>examples = [[2 ^ 64]], str_suffix = ''via application.''\<rparr>
          (Some ''cache.msgpack'') sample_world) = Inl OverflowError \<and>
   files (snd (save msgpack_libraries
                 \<lparr>examples = [[2 ^ 64]], str_suffix = ''via application.''\<rparr>
                 (Some ''cache.msgpack'') sample_world)) ''cache.msgpack'' = Some [] \<and>
   fst (save msgpack_libraries \<lparr>examples = [[1, 2, 3]], str_suffix = ''via application.''\<rparr>
          (Some ''nodir/out.msgpack'') sample_world) = Inl FileNotFoundError"
  by code_simp

end
